theory Spec2Isabelle
  imports Main
begin

section \<open>Exceptions\<close>

text \<open>
  \<^verbatim>\<open>exceptions.py\<close> declares six domain errors. The parsers also handle two signals of
  Selenium, \<^verbatim>\<open>NoSuchElementException\<close> and \<^verbatim>\<open>TimeoutException\<close>. A raise is the
  \<open>Inl\<close> of a result, a normal return the \<open>Inr\<close>.
\<close>

datatype exc =
    NoSuchElementException
  | TimeoutException
  | UndefinedError
  | ServiceUnavailableError
  | FieldFormatError
  | InnNotFoundError
  | DataVerificationError
  | ServiceCaptchaError

text \<open>Both Selenium signals derive from \<^verbatim>\<open>WebDriverException\<close>; the domain errors do not.\<close>

definition webdriver_exception :: "exc \<Rightarrow> bool" where
  "webdriver_exception e = (e = NoSuchElementException \<or> e = TimeoutException)"

definition domain_error :: "exc \<Rightarrow> bool" where
  "domain_error e = (\<not> webdriver_exception e)"

section \<open>The browser session\<close>

text \<open>
  A Python \<^verbatim>\<open>str\<close> is a sequence of Unicode code points. A locator is the pair
  \<^verbatim>\<open>(by, value)\<close> the Selenium calls take.
\<close>

type_synonym pystr = "nat list"

datatype By = XPATH | CLASS_NAME | ID

type_synonym locator = "By \<times> string"

text \<open>
  What the driver reports of one element: \<^verbatim>\<open>is_displayed()\<close>, \<^verbatim>\<open>is_enabled()\<close>
  and \<^verbatim>\<open>.text\<close>. A DOM snapshot maps a locator to the element it finds, if any. A handle
  is what \<^verbatim>\<open>find_element\<close> returns: the element together with the locator that found it.
\<close>

record element =
  displayed :: bool
  enabled :: bool
  inner_text :: pystr

type_synonym dom = "locator \<Rightarrow> element option"

type_synonym handle = "locator \<times> element"

text \<open>The expected conditions of \<^verbatim>\<open>selenium.webdriver.support.expected_conditions\<close> the code uses.\<close>

datatype condition =
    visibility_of_element_located locator
  | element_to_be_clickable locator
  | any_of "condition list"

text \<open>The commands a run sends to the driver, in the order it sends them.\<close>

datatype event =
    Waiting condition nat
  | Click locator
  | SendKeys locator pystr
  | SetValue locator pystr
  | ScriptClick locator
  | Sleep nat
  | ImplicitlyWait nat

text \<open>
  The state of a \<^verbatim>\<open>BaseParser\<close> and of the world it drives. Time is discrete: one tick is
  one poll interval of \<^verbatim>\<open>WebDriverWait\<close>, and timeouts count ticks. \<open>page s t\<close> is the
  DOM at tick \<open>t\<close>; it is the environment's answer to whatever the run does, so it is
  not constrained. A driver command reads the snapshot of the current tick; the clock
  moves only when the run sleeps. \<open>naps\<close> are the draws of \<^verbatim>\<open>uniform(1, 1.5)\<close>,
  \<open>today\<close> is \<^verbatim>\<open>date.today().strftime("%d-%m-%Y")\<close>.
  The driver's implicit wait is kept as the code sets it; how long a failing lookup blocks
  its caller is wall-clock behaviour outside this model.
\<close>

record session =
  timeout :: nat
  implicit_wait :: nat
  clock :: nat
  page :: "nat \<Rightarrow> dom"
  naps :: "nat \<Rightarrow> nat"
  drawn :: nat
  today :: pystr
  history :: "event list"

type_synonym 'a prog = "session \<Rightarrow> (exc + 'a) \<times> session"

definition returns :: "'a \<Rightarrow> 'a prog" where
  "returns a s = (Inr a, s)"

definition raises :: "exc \<Rightarrow> 'a prog" where
  "raises e s = (Inl e, s)"

text \<open>Sequencing: an exception of the first statement skips the rest.\<close>

definition then_do :: "'a prog \<Rightarrow> ('a \<Rightarrow> 'b prog) \<Rightarrow> 'b prog" where
  "then_do m f s = (case m s of (Inl e, s') \<Rightarrow> (Inl e, s') | (Inr a, s') \<Rightarrow> f a s')"

text \<open>
  \<^verbatim>\<open>with suppress(x): body\<close>. The block yields \<open>Some\<close> of the body's value, or
  \<open>None\<close> when the body raised \<open>x\<close>; any other exception passes through.
\<close>

definition suppress :: "exc \<Rightarrow> 'a prog \<Rightarrow> 'a option prog" where
  "suppress x body s =
     (case body s of
        (Inl e, s') \<Rightarrow> if e = x then (Inr None, s') else (Inl e, s')
      | (Inr a, s') \<Rightarrow> (Inr (Some a), s'))"

text \<open>\<^verbatim>\<open>try: body finally: fin\<close>: \<open>fin\<close> runs on every exit of \<open>body\<close>.\<close>

definition try_finally :: "'a prog \<Rightarrow> unit prog \<Rightarrow> 'a prog" where
  "try_finally body fin s =
     (case body s of
        (r, s') \<Rightarrow> (case fin s' of (Inl e, s'') \<Rightarrow> (Inl e, s'') | (Inr u, s'') \<Rightarrow> (r, s'')))"

definition record_event :: "event \<Rightarrow> unit prog" where
  "record_event ev s = (Inr (), s\<lparr>history := history s @ [ev]\<rparr>)"

subsection \<open>Driver commands\<close>

definition find_in :: "dom \<Rightarrow> locator \<Rightarrow> exc + handle" where
  "find_in d loc = (case d loc of None \<Rightarrow> Inl NoSuchElementException | Some e \<Rightarrow> Inr (loc, e))"

definition find_element :: "locator \<Rightarrow> handle prog" where
  "find_element loc s = (find_in (page s (clock s)) loc, s)"

definition is_displayed :: "handle \<Rightarrow> bool" where
  "is_displayed h = displayed (snd h)"

definition is_enabled :: "handle \<Rightarrow> bool" where
  "is_enabled h = enabled (snd h)"

definition click :: "handle \<Rightarrow> unit prog" where
  "click h = record_event (Click (fst h))"

definition send_keys :: "handle \<Rightarrow> pystr \<Rightarrow> unit prog" where
  "send_keys h keys = record_event (SendKeys (fst h) keys)"

text \<open>\<^verbatim>\<open>driver.execute_script("arguments[0].value = arguments[1]", field, v)\<close>\<close>

definition script_set_value :: "handle \<Rightarrow> pystr \<Rightarrow> unit prog" where
  "script_set_value h v = record_event (SetValue (fst h) v)"

text \<open>\<^verbatim>\<open>driver.execute_script("arguments[0].click()", element)\<close>\<close>

definition script_click :: "handle \<Rightarrow> unit prog" where
  "script_click h = record_event (ScriptClick (fst h))"

definition implicitly_wait :: "nat \<Rightarrow> unit prog" where
  "implicitly_wait t s = (Inr (), s\<lparr>implicit_wait := t, history := history s @ [ImplicitlyWait t]\<rparr>)"

text \<open>\<^verbatim>\<open>time.sleep(uniform(1, 1.5))\<close>: the next draw, in ticks.\<close>

definition sleep_uniform :: "unit prog" where
  "sleep_uniform s =
     (let d = naps s (drawn s)
      in (Inr (), s\<lparr>clock := clock s + d, drawn := drawn s + 1, history := history s @ [Sleep d]\<rparr>))"

subsection \<open>Expected conditions and WebDriverWait\<close>

text \<open>
  A condition applied to the driver yields an element (truthy), \<^verbatim>\<open>False\<close> (\<open>None\<close>) or
  raises. \<^verbatim>\<open>visibility_of_element_located\<close> finds the element and returns it if it is
  displayed; \<^verbatim>\<open>element_to_be_clickable\<close> also asks that it is enabled; \<^verbatim>\<open>any_of\<close>
  returns the first truthy result, passing over a condition that raises a
  \<^verbatim>\<open>WebDriverException\<close>.
\<close>

fun check :: "condition \<Rightarrow> dom \<Rightarrow> exc + handle option"
  and check_any :: "condition list \<Rightarrow> dom \<Rightarrow> exc + handle option" where
  "check (visibility_of_element_located loc) d =
     (case find_in d loc of
        Inl e \<Rightarrow> Inl e
      | Inr h \<Rightarrow> Inr (if is_displayed h then Some h else None))"
| "check (element_to_be_clickable loc) d =
     (case find_in d loc of
        Inl e \<Rightarrow> Inl e
      | Inr h \<Rightarrow> Inr (if is_displayed h \<and> is_enabled h then Some h else None))"
| "check (any_of cs) d = check_any cs d"
| "check_any [] d = Inr None"
| "check_any (c # cs) d =
     (case check c d of
        Inr (Some h) \<Rightarrow> Inr (Some h)
      | Inr None \<Rightarrow> check_any cs d
      | Inl e \<Rightarrow> if webdriver_exception e then check_any cs d else Inl e)"

text \<open>
  One pass of the loop of \<^verbatim>\<open>WebDriverWait.until\<close>: the method's value, with the ignored
  \<^verbatim>\<open>NoSuchElementException\<close> read as no value.
\<close>

definition poll :: "condition \<Rightarrow> session \<Rightarrow> exc + handle option" where
  "poll method s =
     (case check method (page s (clock s)) of
        Inl e \<Rightarrow> if e = NoSuchElementException then Inr None else Inl e
      | Inr v \<Rightarrow> Inr v)"

text \<open>
  \<^verbatim>\<open>until\<close>: return the first truthy value; after a pass without one, sleep one poll
  interval and give up with \<^verbatim>\<open>TimeoutException\<close> once the clock is past \<open>end_time\<close>.
\<close>

function until :: "condition \<Rightarrow> nat \<Rightarrow> session \<Rightarrow> (exc + handle) \<times> session" where
  "until method end_time s =
     (case poll method s of
        Inl e \<Rightarrow> (Inl e, s)
      | Inr (Some v) \<Rightarrow> (Inr v, s)
      | Inr None \<Rightarrow>
          (if end_time < clock s + 1 then (Inl TimeoutException, s\<lparr>clock := clock s + 1\<rparr>)
           else until method end_time (s\<lparr>clock := clock s + 1\<rparr>)))"
  by pat_completeness auto
termination
  by (relation "measure (\<lambda>(method, end_time, s). Suc end_time - clock s)") auto

text \<open>\<^verbatim>\<open>WebDriverWait(self.driver, t).until(method)\<close>\<close>

definition webdriver_wait_until :: "nat \<Rightarrow> condition \<Rightarrow> handle prog" where
  "webdriver_wait_until t method s =
     until method (clock s + t) (s\<lparr>history := history s @ [Waiting method t]\<rparr>)"

section \<open>\<^verbatim>\<open>base.py\<close>\<close>

text \<open>
  The optional \<^verbatim>\<open>timeout\<close> argument of the wait primitives is \<open>None\<close> when it is
  not passed, and a number of ticks otherwise.
  \<^verbatim>\<open>timeout or self.timeout\<close>: Python's \<^verbatim>\<open>or\<close> yields its left operand when that is
  truthy, else the right one; \<^verbatim>\<open>None\<close> and \<^verbatim>\<open>0\<close> are falsy.
\<close>

definition timeout_or :: "nat option \<Rightarrow> nat \<Rightarrow> nat" where
  "timeout_or t d = (case t of None \<Rightarrow> d | Some v \<Rightarrow> if v = 0 then d else v)"

definition wait_for_element_visibility :: "locator \<Rightarrow> nat option \<Rightarrow> handle prog" where
  "wait_for_element_visibility loc t s =
     webdriver_wait_until (timeout_or t (timeout s)) (visibility_of_element_located loc) s"

definition wait_for_element_clickable :: "locator \<Rightarrow> nat option \<Rightarrow> handle prog" where
  "wait_for_element_clickable loc t s =
     webdriver_wait_until (timeout_or t (timeout s)) (element_to_be_clickable loc) s"

text \<open>
  \<^verbatim>\<open>BaseParser.__init__\<close>: the timeout is stored and given to the driver as its
  implicit wait; the run starts at tick 0 with nothing sent yet. The options of the driver
  and the navigation to the parser's URL are outside this model.
\<close>

definition new_parser :: "nat \<Rightarrow> (nat \<Rightarrow> dom) \<Rightarrow> (nat \<Rightarrow> nat) \<Rightarrow> pystr \<Rightarrow> session" where
  "new_parser t p n d =
     \<lparr>timeout = t, implicit_wait = t, clock = 0, page = p, naps = n, drawn = 0,
      today = d, history = []\<rparr>"

section \<open>What the four parsers repeat\<close>

text \<open>
  The \<^verbatim>\<open>try\<close>/\<^verbatim>\<open>except\<close> every \<^verbatim>\<open>parse\<close> wraps its steps in:
  \<^verbatim>\<open>except NoSuchElementException: raise UndefinedError\<close> and
  \<^verbatim>\<open>except TimeoutException: raise ServiceUnavailableError\<close>.
\<close>

definition parse_try :: "'a prog \<Rightarrow> 'a prog" where
  "parse_try body s =
     (case body s of
        (Inl e, s') \<Rightarrow>
          (if e = NoSuchElementException then (Inl UndefinedError, s')
           else if e = TimeoutException then (Inl ServiceUnavailableError, s')
           else (Inl e, s'))
      | (Inr a, s') \<Rightarrow> (Inr a, s'))"

text \<open>
  \<^verbatim>\<open>_is_element_displayed\<close>, which \<^verbatim>\<open>ArbitrParser\<close>, \<^verbatim>\<open>InnParser\<close> and
  \<^verbatim>\<open>RomParser\<close> each define with the same body.
\<close>

definition is_element_displayed :: "locator \<Rightarrow> bool prog" where
  "is_element_displayed loc =
     then_do
       (suppress NoSuchElementException
          (then_do (find_element loc) (\<lambda>element. returns (is_displayed element))))
       (\<lambda>r. case r of Some b \<Rightarrow> returns b | None \<Rightarrow> returns False)"

text \<open>
  A \<^verbatim>\<open>WebElement\<close> defines neither \<^verbatim>\<open>__bool__\<close> nor \<^verbatim>\<open>__len__\<close>: in an \<^verbatim>\<open>if\<close>
  it is true.
\<close>

definition truthy :: "handle \<Rightarrow> bool" where
  "truthy h = True"

section \<open>\<^verbatim>\<open>parser_arbitr.py\<close>\<close>

definition arbitr_close_btn :: locator where
  "arbitr_close_btn = (XPATH, ''//*[@id=\"js\"]/div[13]/div[2]/div/div/div/div/a[1]'')"

definition arbitr_inn_field :: locator where
  "arbitr_inn_field = (XPATH, ''//*[@id=\"sug-participants\"]/div/textarea'')"

definition arbitr_submit_button :: locator where
  "arbitr_submit_button = (XPATH, ''//*[@id=\"b-form-submit\"]/div/button'')"

definition b_noResults :: locator where
  "b_noResults = (CLASS_NAME, ''b-noResults'')"

definition b_results :: locator where
  "b_results = (CLASS_NAME, ''b-results'')"

definition arbitr_close_notification :: "unit prog" where
  "arbitr_close_notification =
     then_do
       (suppress TimeoutException
          (then_do (wait_for_element_clickable arbitr_close_btn (Some 5)) (\<lambda>close_btn.
           then_do (click close_btn) (\<lambda>_. sleep_uniform))))
       (\<lambda>_. returns ())"

definition arbitr_input_inn :: "pystr \<Rightarrow> unit prog" where
  "arbitr_input_inn inn =
     then_do (wait_for_element_visibility arbitr_inn_field None) (\<lambda>inn_field.
     then_do (send_keys inn_field inn) (\<lambda>_. sleep_uniform))"

definition arbitr_submit_search :: "unit prog" where
  "arbitr_submit_search =
     then_do (wait_for_element_clickable arbitr_submit_button None) (\<lambda>submit_button.
     then_do (click submit_button) (\<lambda>_. sleep_uniform))"

definition arbitr_race :: condition where
  "arbitr_race =
     any_of [visibility_of_element_located b_noResults, visibility_of_element_located b_results]"

definition arbitr_wait_for_result_display :: "unit prog" where
  "arbitr_wait_for_result_display s =
     then_do (webdriver_wait_until (timeout s) arbitr_race) (\<lambda>_. returns ()) s"

text \<open>The \<^verbatim>\<open>if\<close>/\<^verbatim>\<open>elif\<close>/\<^verbatim>\<open>else\<close> of \<^verbatim>\<open>_check_result\<close>, and \<^verbatim>\<open>_check_result\<close>.\<close>

definition arbitr_classify :: "bool prog" where
  "arbitr_classify =
     then_do (is_element_displayed b_noResults) (\<lambda>no_results.
       if no_results then returns False
       else then_do (is_element_displayed b_results) (\<lambda>results.
         if results then returns True else raises UndefinedError))"

definition arbitr_check_result :: "bool prog" where
  "arbitr_check_result = then_do arbitr_wait_for_result_display (\<lambda>_. arbitr_classify)"

text \<open>The statements of the \<^verbatim>\<open>try\<close> block of \<^verbatim>\<open>ArbitrParser.parse\<close>, and \<^verbatim>\<open>parse\<close>.\<close>

definition arbitr_steps :: "pystr \<Rightarrow> bool prog" where
  "arbitr_steps inn =
     then_do arbitr_close_notification (\<lambda>_.
     then_do (arbitr_input_inn inn) (\<lambda>_.
     then_do arbitr_submit_search (\<lambda>_.
     then_do arbitr_check_result (\<lambda>result. returns result))))"

definition arbitr_parse :: "pystr \<Rightarrow> bool prog" where
  "arbitr_parse inn = parse_try (arbitr_steps inn)"

section \<open>\<^verbatim>\<open>parser_rom.py\<close>\<close>

definition rom_query :: locator where
  "rom_query = (XPATH, ''//*[@id=\"query\"]'')"

definition rom_submit_button :: locator where
  "rom_submit_button = (XPATH, ''//*[@id=\"pnlSearch\"]/div[4]/div[2]/button'')"

definition field_errors :: locator where
  "field_errors = (CLASS_NAME, ''field-errors'')"

definition pnlData :: locator where
  "pnlData = (ID, ''pnlData'')"

definition pnlNoData :: locator where
  "pnlNoData = (ID, ''pnlNoData'')"

definition rom_input_inn :: "pystr \<Rightarrow> unit prog" where
  "rom_input_inn inn =
     then_do (wait_for_element_visibility rom_query None) (\<lambda>inn_field.
     script_set_value inn_field inn)"

definition rom_submit_search :: "unit prog" where
  "rom_submit_search =
     then_do (wait_for_element_clickable rom_submit_button None) (\<lambda>submit_button.
     script_click submit_button)"

definition rom_check_entry_validation :: "unit prog" where
  "rom_check_entry_validation =
     then_do
       (suppress TimeoutException
          (then_do (wait_for_element_visibility field_errors (Some 2)) (\<lambda>found.
           if truthy found then raises FieldFormatError else returns ())))
       (\<lambda>_. returns ())"

definition rom_race :: condition where
  "rom_race =
     any_of [visibility_of_element_located pnlData, visibility_of_element_located pnlNoData]"

definition rom_wait_for_result_display :: "unit prog" where
  "rom_wait_for_result_display s =
     then_do (webdriver_wait_until (timeout s) rom_race) (\<lambda>_. returns ()) s"

text \<open>The \<^verbatim>\<open>if\<close>/\<^verbatim>\<open>elif\<close>/\<^verbatim>\<open>else\<close> of \<^verbatim>\<open>_check_result\<close>, and \<^verbatim>\<open>_check_result\<close>.\<close>

definition rom_classify :: "bool prog" where
  "rom_classify =
     then_do (is_element_displayed pnlNoData) (\<lambda>no_data.
       if no_data then returns False
       else then_do (is_element_displayed pnlData) (\<lambda>data.
         if data then returns True else raises UndefinedError))"

definition rom_check_result :: "bool prog" where
  "rom_check_result = then_do rom_wait_for_result_display (\<lambda>_. rom_classify)"

definition rom_steps :: "pystr \<Rightarrow> bool prog" where
  "rom_steps inn =
     then_do (rom_input_inn inn) (\<lambda>_.
     then_do rom_submit_search (\<lambda>_.
     then_do rom_check_entry_validation (\<lambda>_.
     then_do rom_check_result (\<lambda>result. returns result))))"

definition rom_parse :: "pystr \<Rightarrow> bool prog" where
  "rom_parse inn = parse_try (rom_steps inn)"

section \<open>\<^verbatim>\<open>parser_npd.py\<close>\<close>

definition npd_tbINN :: locator where
  "npd_tbINN = (XPATH, ''//*[@id=\"ctl00_ctl00_tbINN\"]'')"

definition npd_tbDate :: locator where
  "npd_tbDate = (XPATH, ''//*[@id=\"ctl00_ctl00_tbDate\"]'')"

definition npd_btSend :: locator where
  "npd_btSend = (XPATH, ''//*[@id=\"ctl00_ctl00_btSend\"]'')"

definition npd_RequiredFieldValidator1 :: locator where
  "npd_RequiredFieldValidator1 = (XPATH, ''//*[@id=\"ctl00_ctl00_RequiredFieldValidator1\"]'')"

definition npd_cv_Inn :: locator where
  "npd_cv_Inn = (XPATH, ''//*[@id=\"ctl00_ctl00_cv_Inn\"]'')"

definition npd_RequiredFieldValidator2 :: locator where
  "npd_RequiredFieldValidator2 = (XPATH, ''//*[@id=\"ctl00_ctl00_RequiredFieldValidator2\"]'')"

definition npd_CustomValidator1 :: locator where
  "npd_CustomValidator1 = (XPATH, ''//*[@id=\"ctl00_ctl00_CustomValidator1\"]'')"

definition npd_result :: locator where
  "npd_result = (XPATH, ''//*[@id=\"content\"]/div/div/div[1]/div[5]'')"

definition npd_fill_inn_field :: "pystr \<Rightarrow> unit prog" where
  "npd_fill_inn_field inn =
     then_do (wait_for_element_visibility npd_tbINN None) (\<lambda>inn_field.
     script_set_value inn_field inn)"

definition npd_fill_date_field :: "unit prog" where
  "npd_fill_date_field s =
     (let current_date = today s
      in then_do (wait_for_element_visibility npd_tbDate None) (\<lambda>date_field.
         script_set_value date_field current_date) s)"

definition npd_submit_form :: "unit prog" where
  "npd_submit_form =
     then_do (wait_for_element_clickable npd_btSend None) (\<lambda>submit_button.
     script_click submit_button)"

definition npd_validators :: condition where
  "npd_validators =
     any_of [visibility_of_element_located npd_RequiredFieldValidator1,
             visibility_of_element_located npd_cv_Inn,
             visibility_of_element_located npd_RequiredFieldValidator2,
             visibility_of_element_located npd_CustomValidator1]"

definition npd_check_entry_validation :: "unit prog" where
  "npd_check_entry_validation =
     then_do
       (suppress TimeoutException
          (then_do (webdriver_wait_until 2 npd_validators) (\<lambda>_.
           (raises FieldFormatError :: unit prog))))
       (\<lambda>_. returns ())"

text \<open>
  \<^verbatim>\<open>str.strip()\<close> removes the leading and trailing characters for which
  \<^verbatim>\<open>str.isspace\<close> holds.
\<close>

definition py_isspace :: "nat \<Rightarrow> bool" where
  "py_isspace c =
     ((9 \<le> c \<and> c \<le> 13) \<or> (28 \<le> c \<and> c \<le> 32) \<or> c = 133 \<or> c = 160 \<or> c = 5760
      \<or> (8192 \<le> c \<and> c \<le> 8202) \<or> c = 8232 \<or> c = 8233 \<or> c = 8239 \<or> c = 8287
      \<or> c = 12288)"

definition strip :: "pystr \<Rightarrow> pystr" where
  "strip t = rev (dropWhile py_isspace (rev (dropWhile py_isspace t)))"

definition npd_get_result_text :: "pystr prog" where
  "npd_get_result_text s =
     then_do (webdriver_wait_until (timeout s) (visibility_of_element_located npd_result))
       (\<lambda>result_element. returns (strip (inner_text (snd result_element)))) s"

text \<open>
  The pattern of \<^verbatim>\<open>_analyze_result\<close> is
  \<^verbatim>\<open>\bPHRASE_NOT\b|\bPHRASE\b\<close>, where \<^verbatim>\<open>PHRASE\<close> is the Russian word for "is"
  (code points 1103 1074 1083 1103 1077 1090 1089 1103) and \<^verbatim>\<open>PHRASE_NOT\<close> is the same
  word after the particle "not" (1085 1077) and one space (32).
  \<^verbatim>\<open>\b\<close> matches where exactly one of the two neighbouring characters is a word
  character, the ends of the text counting as none. Which code points are word characters
  (\<^verbatim>\<open>\w\<close>: the Unicode alphanumerics and the underscore) is a table of the \<^verbatim>\<open>re\<close>
  module; it is the parameter \<open>w\<close>.
\<close>

definition phrase :: pystr where
  "phrase = [1103, 1074, 1083, 1103, 1077, 1090, 1089, 1103]"

definition phrase_not :: pystr where
  "phrase_not = [1085, 1077, 32] @ phrase"

definition word_boundary :: "(nat \<Rightarrow> bool) \<Rightarrow> pystr \<Rightarrow> nat \<Rightarrow> bool" where
  "word_boundary w t i = ((0 < i \<and> w (t ! (i - 1))) \<noteq> (i < length t \<and> w (t ! i)))"

definition literal_at :: "pystr \<Rightarrow> nat \<Rightarrow> pystr \<Rightarrow> bool" where
  "literal_at t i lit = (take (length lit) (drop i t) = lit)"

text \<open>\<^verbatim>\<open>\blit\b\<close> matches the text at position \<open>i\<close>.\<close>

definition whole_word_at :: "(nat \<Rightarrow> bool) \<Rightarrow> pystr \<Rightarrow> pystr \<Rightarrow> nat \<Rightarrow> bool" where
  "whole_word_at w lit t i =
     (word_boundary w t i \<and> literal_at t i lit \<and> word_boundary w t (i + length lit))"

text \<open>The alternation at one position: the left alternative is tried first.\<close>

definition match_at :: "(nat \<Rightarrow> bool) \<Rightarrow> pystr \<Rightarrow> nat \<Rightarrow> pystr option" where
  "match_at w t i =
     (if whole_word_at w phrase_not t i then Some phrase_not
      else if whole_word_at w phrase t i then Some phrase
      else None)"

text \<open>\<^verbatim>\<open>re.search\<close> tries the start positions from left to right and keeps the first match.\<close>

fun search_from :: "(nat \<Rightarrow> bool) \<Rightarrow> pystr \<Rightarrow> nat list \<Rightarrow> pystr option" where
  "search_from w t [] = None"
| "search_from w t (i # positions) =
     (case match_at w t i of Some m \<Rightarrow> Some m | None \<Rightarrow> search_from w t positions)"

definition re_search :: "(nat \<Rightarrow> bool) \<Rightarrow> pystr \<Rightarrow> pystr option" where
  "re_search w t = search_from w t [0..<Suc (length t)]"

definition analyze_result :: "(nat \<Rightarrow> bool) \<Rightarrow> pystr \<Rightarrow> exc + bool" where
  "analyze_result w t =
     (case re_search w t of
        None \<Rightarrow> Inl ServiceUnavailableError
      | Some m \<Rightarrow> Inr (m = phrase))"

definition npd_steps :: "(nat \<Rightarrow> bool) \<Rightarrow> pystr \<Rightarrow> bool prog" where
  "npd_steps w inn =
     then_do (npd_fill_inn_field inn) (\<lambda>_.
     then_do npd_fill_date_field (\<lambda>_.
     then_do npd_submit_form (\<lambda>_.
     then_do npd_check_entry_validation (\<lambda>_.
     then_do npd_get_result_text (\<lambda>result_text.
     (\<lambda>s. (analyze_result w result_text, s)))))))"

definition npd_parse :: "(nat \<Rightarrow> bool) \<Rightarrow> pystr \<Rightarrow> bool prog" where
  "npd_parse w inn = parse_try (npd_steps w inn)"

section \<open>\<^verbatim>\<open>parser_inn.py\<close>\<close>

definition unichk_0 :: locator where
  "unichk_0 = (XPATH, ''//*[@id=\"unichk_0\"]'')"

definition btnContinue :: locator where
  "btnContinue = (XPATH, ''//*[@id=\"btnContinue\"]'')"

definition fam :: locator where
  "fam = (XPATH, ''//*[@id=\"fam\"]'')"

definition nam :: locator where
  "nam = (XPATH, ''//*[@id=\"nam\"]'')"

definition otch :: locator where
  "otch = (XPATH, ''//*[@id=\"otch\"]'')"

definition bdate :: locator where
  "bdate = (XPATH, ''//*[@id=\"bdate\"]'')"

definition docno :: locator where
  "docno = (XPATH, ''//*[@id=\"docno\"]'')"

definition btn_send :: locator where
  "btn_send = (XPATH, ''//*[@id=\"btn_send\"]'')"

definition uniDialogData :: locator where
  "uniDialogData = (XPATH, ''//*[@id=\"uniDialogData\"]'')"

definition result_0 :: locator where
  "result_0 = (ID, ''result_0'')"

definition result_1 :: locator where
  "result_1 = (ID, ''result_1'')"

definition result_3 :: locator where
  "result_3 = (ID, ''result_3'')"

definition result_err :: locator where
  "result_err = (ID, ''result_err'')"

definition resultInn :: locator where
  "resultInn = (XPATH, ''//*[@id=\"resultInn\"]'')"

definition inn_find_and_click :: "locator \<Rightarrow> bool prog" where
  "inn_find_and_click loc =
     then_do
       (suppress NoSuchElementException
          (then_do (find_element loc) (\<lambda>element.
           then_do (script_click element) (\<lambda>_. returns True))))
       (\<lambda>r. case r of Some b \<Rightarrow> returns b | None \<Rightarrow> returns False)"

definition inn_bypass_personal_data_block :: "unit prog" where
  "inn_bypass_personal_data_block =
     then_do (inn_find_and_click unichk_0) (\<lambda>personal_data.
       if personal_data then then_do (inn_find_and_click btnContinue) (\<lambda>_. returns ())
       else returns ())"

definition inn_fill_field :: "locator \<Rightarrow> pystr \<Rightarrow> unit prog" where
  "inn_fill_field loc v =
     then_do (wait_for_element_visibility loc None) (\<lambda>field. script_set_value field v)"

definition inn_fill_personal_info ::
  "pystr \<Rightarrow> pystr \<Rightarrow> pystr \<Rightarrow> pystr \<Rightarrow> pystr \<Rightarrow> unit prog" where
  "inn_fill_personal_info surname name lastname birthdate passport =
     then_do (inn_fill_field fam surname) (\<lambda>_.
     then_do (inn_fill_field nam name) (\<lambda>_.
     then_do (inn_fill_field otch lastname) (\<lambda>_.
     then_do (inn_fill_field bdate birthdate) (\<lambda>_.
     inn_fill_field docno passport))))"

definition inn_submit_form :: "unit prog" where
  "inn_submit_form = then_do (inn_find_and_click btn_send) (\<lambda>_. returns ())"

definition inn_check_for_errors :: "unit prog" where
  "inn_check_for_errors =
     then_do
       (suppress TimeoutException
          (then_do (wait_for_element_visibility field_errors (Some 2)) (\<lambda>found.
           if truthy found then raises FieldFormatError else returns ())))
       (\<lambda>_. returns ())"

definition inn_check_for_captcha :: "unit prog" where
  "inn_check_for_captcha =
     then_do
       (suppress TimeoutException
          (then_do (wait_for_element_visibility uniDialogData (Some 3)) (\<lambda>found.
           if truthy found then raises ServiceCaptchaError else returns ())))
       (\<lambda>_. returns ())"

definition inn_validate_input :: "unit prog" where
  "inn_validate_input =
     try_finally
       (then_do (implicitly_wait 0) (\<lambda>_.
        then_do inn_check_for_errors (\<lambda>_.
        inn_check_for_captcha)))
       (\<lambda>s. implicitly_wait (timeout s) s)"

definition inn_race :: condition where
  "inn_race =
     any_of [visibility_of_element_located result_0,
             visibility_of_element_located result_1,
             visibility_of_element_located result_3,
             visibility_of_element_located result_err]"

definition inn_wait_for_result_display :: "unit prog" where
  "inn_wait_for_result_display s =
     then_do (webdriver_wait_until (timeout s) inn_race) (\<lambda>_. returns ()) s"

text \<open>The \<^verbatim>\<open>if\<close>/\<^verbatim>\<open>elif\<close>/\<^verbatim>\<open>else\<close> of \<^verbatim>\<open>_parse_result\<close>, and \<^verbatim>\<open>_parse_result\<close>.\<close>

definition inn_classify :: "pystr prog" where
  "inn_classify =
     then_do (is_element_displayed result_0) (\<lambda>r0.
       if r0 then raises InnNotFoundError
       else then_do (is_element_displayed result_1) (\<lambda>r1.
         if r1 then then_do (find_element resultInn) (\<lambda>e. returns (inner_text (snd e)))
         else then_do (is_element_displayed result_3) (\<lambda>r3.
           if r3 then raises DataVerificationError
           else then_do (is_element_displayed result_err) (\<lambda>rerr.
             if rerr then raises ServiceUnavailableError
             else raises UndefinedError))))"

definition inn_parse_result :: "pystr prog" where
  "inn_parse_result = then_do inn_wait_for_result_display (\<lambda>_. inn_classify)"

definition inn_steps :: "pystr \<Rightarrow> pystr \<Rightarrow> pystr \<Rightarrow> pystr \<Rightarrow> pystr \<Rightarrow> pystr prog" where
  "inn_steps surname name lastname birthdate passport =
     then_do inn_bypass_personal_data_block (\<lambda>_.
     then_do (inn_fill_personal_info surname name lastname birthdate passport) (\<lambda>_.
     then_do inn_submit_form (\<lambda>_.
     then_do inn_validate_input (\<lambda>_.
     inn_parse_result))))"

definition inn_parse :: "pystr \<Rightarrow> pystr \<Rightarrow> pystr \<Rightarrow> pystr \<Rightarrow> pystr \<Rightarrow> pystr prog" where
  "inn_parse surname name lastname birthdate passport =
     parse_try (inn_steps surname name lastname birthdate passport)"


section \<open>What a run can observe\<close>

text \<open>
  An element is visible in a snapshot when its locator finds it and it is displayed, and
  clickable when it is also enabled. A condition is satisfied by a snapshot when it yields
  an element there.
\<close>

definition visible :: "dom \<Rightarrow> locator \<Rightarrow> bool" where
  "visible d loc = (case d loc of None \<Rightarrow> False | Some e \<Rightarrow> displayed e)"

definition clickable :: "dom \<Rightarrow> locator \<Rightarrow> bool" where
  "clickable d loc = (case d loc of None \<Rightarrow> False | Some e \<Rightarrow> displayed e \<and> enabled e)"

definition satisfied :: "condition \<Rightarrow> dom \<Rightarrow> bool" where
  "satisfied c d = (case check c d of Inr (Some h) \<Rightarrow> True | _ \<Rightarrow> False)"

text \<open>
  During the \<open>n + 1\<close> ticks from the current one (the ticks a wait of timeout \<open>n\<close>
  polls), none of the locators is visible, or clickable.
\<close>

definition none_visible_during :: "session \<Rightarrow> nat \<Rightarrow> locator list \<Rightarrow> bool" where
  "none_visible_during s n locs =
     list_all (\<lambda>k. list_all (\<lambda>loc. \<not> visible (page s (clock s + k)) loc) locs) [0..<Suc n]"

definition none_clickable_during :: "session \<Rightarrow> nat \<Rightarrow> locator list \<Rightarrow> bool" where
  "none_clickable_during s n locs =
     list_all (\<lambda>k. list_all (\<lambda>loc. \<not> clickable (page s (clock s + k)) loc) locs) [0..<Suc n]"

text \<open>The state a wait leaves when it gives up after \<open>t\<close> ticks.\<close>

definition timed_out :: "condition \<Rightarrow> nat \<Rightarrow> session \<Rightarrow> session" where
  "timed_out c t s = s\<lparr>history := history s @ [Waiting c t], clock := clock s + t + 1\<rparr>"

text \<open>The state a wait leaves when its condition is first satisfied after \<open>j\<close> ticks.\<close>

definition resolved :: "condition \<Rightarrow> nat \<Rightarrow> nat \<Rightarrow> session \<Rightarrow> session" where
  "resolved c t j s = s\<lparr>history := history s @ [Waiting c t], clock := clock s + j\<rparr>"

text \<open>The state \<^verbatim>\<open>_validate_input\<close> leaves when \<^verbatim>\<open>_check_for_errors\<close> finds its marker after \<open>j\<close> ticks.\<close>

definition inn_rejected :: "nat \<Rightarrow> session \<Rightarrow> session" where
  "inn_rejected j s =
     s\<lparr>implicit_wait := timeout s, clock := clock s + j,
       history := history s @ [ImplicitlyWait 0,
                               Waiting (visibility_of_element_located field_errors) 2,
                               ImplicitlyWait (timeout s)]\<rparr>"

section \<open>Example worlds\<close>

text \<open>
  A world in which the listed locators find a displayed, enabled element at every tick, the
  first of which carries the text \<open>txt\<close>, while no other locator finds anything; and a
  parser opened on it with timeout 1.
\<close>

definition showing :: "locator list \<Rightarrow> pystr \<Rightarrow> nat \<Rightarrow> dom" where
  "showing locs txt t loc =
     (if loc \<in> set locs
      then Some \<lparr>displayed = True, enabled = True,
                 inner_text = (if loc = hd locs then txt else [])\<rparr>
      else None)"

definition world :: "locator list \<Rightarrow> pystr \<Rightarrow> session" where
  "world locs txt = new_parser 1 (showing locs txt) (\<lambda>n. 2) []"

text \<open>A world in which \<open>loc\<close> finds a displayed, enabled element from tick \<open>n\<close> on.\<close>

definition appearing_at :: "nat \<Rightarrow> locator \<Rightarrow> nat \<Rightarrow> dom" where
  "appearing_at n loc t l =
     (if n \<le> t \<and> l = loc then Some \<lparr>displayed = True, enabled = True, inner_text = []\<rparr>
      else None)"

text \<open>
  The word characters among the ASCII characters and the letters of the Russian alphabet:
  digits, Latin letters, underscore, U+0410 to U+044F, U+0401 and U+0451.
\<close>

definition ascii_russian_word :: "nat \<Rightarrow> bool" where
  "ascii_russian_word c =
     ((48 \<le> c \<and> c \<le> 57) \<or> (65 \<le> c \<and> c \<le> 90) \<or> c = 95 \<or> (97 \<le> c \<and> c \<le> 122)
      \<or> (1040 \<le> c \<and> c \<le> 1103) \<or> c = 1025 \<or> c = 1105)"

text \<open>
  Four result texts, in Russian: "error"; "he is not NPD" and "he is NPD", built on the two
  phrases; and the two phrases in a row, the bare one first, separated by a comma.
\<close>

definition text_unknown :: pystr where
  "text_unknown = [1086, 1096, 1080, 1073, 1082, 1072]"

definition text_is_not :: pystr where
  "text_is_not = [1086, 1085, 32] @ phrase_not @ [32, 1053, 1055, 1044]"

definition text_is :: pystr where
  "text_is = [1086, 1085, 32] @ phrase @ [32, 1053, 1055, 1044]"

definition text_both :: pystr where
  "text_both = phrase @ [44, 32] @ phrase_not"

section \<open>Properties\<close>

lemma until_keeps:
  "until c e s = (r, s') \<Longrightarrow> s' = s\<lparr>clock := clock s'\<rparr> \<and> clock s \<le> clock s'"
proof (induction c e s rule: until.induct)
  case (1 c e s)
  show ?case
  proof (cases "poll c s")
    case (Inl e)
    with "1.prems" show ?thesis by simp
  next
    case (Inr v)
    show ?thesis
    proof (cases v)
      case (Some h)
      with Inr "1.prems" show ?thesis by simp
    next
      case None
      show ?thesis
      proof (cases "e < clock s + 1")
        case True
        with Inr None "1.prems" show ?thesis by auto
      next
        case False
        with Inr None "1.prems"
        have "until c e (s\<lparr>clock := clock s + 1\<rparr>) = (r, s')" by simp
        from "1.IH"[OF Inr None False this] show ?thesis by simp
      qed
    qed
  qed
qed

lemma check_raises_only_NoSuchElement:
  "check c d = Inl x \<Longrightarrow> x = NoSuchElementException"
  "check_any cs d = Inl x \<Longrightarrow> x = NoSuchElementException"
  by (induction c d and cs d rule: check_check_any.induct)
     (auto simp: find_in_def webdriver_exception_def split: option.splits sum.splits if_splits)

lemma poll_cases: "poll c s = Inr (if satisfied c (page s (clock s)) then
    (case check c (page s (clock s)) of Inr v \<Rightarrow> v) else None)"
  using check_raises_only_NoSuchElement(1)[of c "page s (clock s)"]
  by (auto simp: poll_def satisfied_def split: sum.splits option.splits)

lemma satisfied_visibility [simp]:
  "satisfied (visibility_of_element_located loc) d = visible d loc"
  by (simp add: satisfied_def visible_def find_in_def is_displayed_def split: option.splits)

lemma satisfied_clickable [simp]:
  "satisfied (element_to_be_clickable loc) d = clickable d loc"
  by (simp add: satisfied_def clickable_def find_in_def is_displayed_def is_enabled_def split: option.splits)

lemma check_any_Cons:
  "check_any (c # cs) d = (if satisfied c d then check c d else check_any cs d)"
  using check_raises_only_NoSuchElement(1)[of c d]
  by (auto simp: satisfied_def webdriver_exception_def split: sum.splits option.splits)

lemma check_any_satisfied:
  "(case check_any cs d of Inr (Some h) \<Rightarrow> True | _ \<Rightarrow> False) = (\<exists>c \<in> set cs. satisfied c d)"
proof (induction cs)
  case Nil
  show ?case by simp
next
  case (Cons c cs)
  show ?case
  proof (cases "satisfied c d")
    case True
    then show ?thesis by (simp add: check_any_Cons satisfied_def del: check_any.simps)
  next
    case False
    with Cons show ?thesis by (simp add: check_any_Cons del: check_any.simps)
  qed
qed

lemma satisfied_any_of [simp]:
  "satisfied (any_of cs) d = (\<exists>c \<in> set cs. satisfied c d)"
  using check_any_satisfied[of cs d] by (simp add: satisfied_def)

lemma until_timeout:
  "clock s \<le> e \<Longrightarrow> (\<forall>t. clock s \<le> t \<and> t \<le> e \<longrightarrow> \<not> satisfied c (page s t))
   \<Longrightarrow> until c e s = (Inl TimeoutException, s\<lparr>clock := e + 1\<rparr>)"
proof (induction c e s rule: until.induct)
  case (1 c e s)
  have here: "poll c s = Inr None" using "1.prems" by (simp add: poll_cases)
  show ?case
  proof (cases "e < clock s + 1")
    case True
    with "1.prems" have "clock s = e" by simp
    with here True show ?thesis by simp
  next
    case False
    have "until c e (s\<lparr>clock := clock s + 1\<rparr>) =
      (Inl TimeoutException, s\<lparr>clock := clock s + 1\<rparr>\<lparr>clock := e + 1\<rparr>)"
      using "1.IH"[OF here refl False] "1.prems" False by simp
    with here False show ?thesis by simp
  qed
qed

lemma until_found:
  "clock s \<le> t \<Longrightarrow> t \<le> e \<Longrightarrow> satisfied c (page s t) \<Longrightarrow>
   \<exists>h t'. until c e s = (Inr h, s\<lparr>clock := t'\<rparr>) \<and> clock s \<le> t' \<and> t' \<le> t
      \<and> check c (page s t') = Inr (Some h)
      \<and> (\<forall>u. clock s \<le> u \<and> u < t' \<longrightarrow> \<not> satisfied c (page s u))"
proof (induction c e s rule: until.induct)
  case (1 c e s)
  show ?case
  proof (cases "satisfied c (page s (clock s))")
    case True
    then obtain h where h: "check c (page s (clock s)) = Inr (Some h)"
      by (auto simp: satisfied_def split: sum.splits option.splits)
    with True have "poll c s = Inr (Some h)" by (simp add: poll_cases)
    then have "until c e s = (Inr h, s\<lparr>clock := clock s\<rparr>)" by simp
    with h "1.prems" show ?thesis by fastforce
  next
    case False
    then have here: "poll c s = Inr None" by (simp add: poll_cases)
    from False "1.prems" have lt: "clock s < t" by (cases "clock s = t") auto
    with "1.prems" have nd: "\<not> e < clock s + 1" by simp
    from lt "1.prems" obtain h t' where
      u: "until c e (s\<lparr>clock := clock s + 1\<rparr>) = (Inr h, s\<lparr>clock := clock s + 1\<rparr>\<lparr>clock := t'\<rparr>)"
      and b: "clock s + 1 \<le> t'" "t' \<le> t" "check c (page s t') = Inr (Some h)"
      and m: "\<forall>u. clock s + 1 \<le> u \<and> u < t' \<longrightarrow> \<not> satisfied c (page s u)"
      using "1.IH"[OF here refl nd] by auto
    have "until c e s = (Inr h, s\<lparr>clock := t'\<rparr>)" using here nd u by simp
    moreover have "\<forall>u. clock s \<le> u \<and> u < t' \<longrightarrow> \<not> satisfied c (page s u)"
    proof (intro allI impI)
      fix u assume "clock s \<le> u \<and> u < t'"
      then show "\<not> satisfied c (page s u)" using m False by (cases "u = clock s") auto
    qed
    ultimately show ?thesis using b by auto
  qed
qed

lemma wait_timeout:
  assumes "\<forall>k \<le> t. \<not> satisfied c (page s (clock s + k))"
  shows "webdriver_wait_until t c s =
     (Inl TimeoutException, s\<lparr>history := history s @ [Waiting c t], clock := clock s + t + 1\<rparr>)"
proof -
  let ?s = "s\<lparr>history := history s @ [Waiting c t]\<rparr>"
  have "\<forall>u. clock ?s \<le> u \<and> u \<le> clock s + t \<longrightarrow> \<not> satisfied c (page ?s u)"
  proof (intro allI impI)
    fix u assume u: "clock ?s \<le> u \<and> u \<le> clock s + t"
    then have "u - clock s \<le> t" by auto
    with assms have "\<not> satisfied c (page s (clock s + (u - clock s)))" by blast
    with u show "\<not> satisfied c (page ?s u)" by simp
  qed
  then have "until c (clock s + t) ?s = (Inl TimeoutException, ?s\<lparr>clock := clock s + t + 1\<rparr>)"
    using until_timeout[of ?s "clock s + t" c] by simp
  then show ?thesis by (simp add: webdriver_wait_until_def)
qed

lemma wait_found:
  assumes "k \<le> t" and "satisfied c (page s (clock s + k))"
  shows "\<exists>h j. webdriver_wait_until t c s =
       (Inr h, s\<lparr>history := history s @ [Waiting c t], clock := clock s + j\<rparr>)
     \<and> j \<le> k \<and> check c (page s (clock s + j)) = Inr (Some h)
     \<and> (\<forall>i < j. \<not> satisfied c (page s (clock s + i)))"
proof -
  let ?s = "s\<lparr>history := history s @ [Waiting c t]\<rparr>"
  from assms obtain h t' where
    u: "until c (clock s + t) ?s = (Inr h, ?s\<lparr>clock := t'\<rparr>)"
    and b: "clock s \<le> t'" "t' \<le> clock s + k" "check c (page s t') = Inr (Some h)"
    and m: "\<forall>u. clock s \<le> u \<and> u < t' \<longrightarrow> \<not> satisfied c (page s u)"
    using until_found[of ?s "clock s + k" "clock s + t" c] by auto
  let ?j = "t' - clock s"
  have "webdriver_wait_until t c s =
       (Inr h, s\<lparr>history := history s @ [Waiting c t], clock := clock s + ?j\<rparr>)"
    using u b by (simp add: webdriver_wait_until_def)
  moreover have "?j \<le> k" using b by simp
  moreover have "check c (page s (clock s + ?j)) = Inr (Some h)" using b by simp
  moreover have "\<forall>i < ?j. \<not> satisfied c (page s (clock s + i))"
  proof (intro allI impI)
    fix i assume "i < ?j"
    then have "clock s \<le> clock s + i \<and> clock s + i < t'" by simp
    with m show "\<not> satisfied c (page s (clock s + i))" by blast
  qed
  ultimately show ?thesis by blast
qed

lemma then_do_Inr: "m s = (Inr a, s1) \<Longrightarrow> then_do m f s = f a s1"
  by (simp add: then_do_def)

lemma then_do_Inl: "m s = (Inl e, s1) \<Longrightarrow> then_do m f s = (Inl e, s1)"
  by (simp add: then_do_def)

lemma then_do_assoc: "then_do (then_do m f) g = then_do m (\<lambda>a. then_do (f a) g)"
  by (auto simp: then_do_def fun_eq_iff split: prod.splits sum.splits)

lemma then_do_returns: "then_do m returns = m"
  by (auto simp: then_do_def returns_def fun_eq_iff split: prod.splits sum.splits)

lemma parse_try_Timeout:
  "body s = (Inl TimeoutException, s') \<Longrightarrow> parse_try body s = (Inl ServiceUnavailableError, s')"
  by (simp add: parse_try_def)

lemma parse_try_domain:
  "body s = (Inl e, s') \<Longrightarrow> domain_error e \<Longrightarrow> parse_try body s = (Inl e, s')"
  by (auto simp: parse_try_def domain_error_def webdriver_exception_def)

lemma all_le_list: "(\<forall>k \<le> n. P k) = list_all P [0..<Suc n]"
  by (auto simp: list_all_iff less_Suc_eq_le)

lemma wait_history:
  "history (snd (webdriver_wait_until t c s)) = history s @ [Waiting c t]"
proof -
  obtain r s' where u: "until c (clock s + t) (s\<lparr>history := history s @ [Waiting c t]\<rparr>) = (r, s')"
    by (cases "until c (clock s + t) (s\<lparr>history := history s @ [Waiting c t]\<rparr>)")
  from until_keeps[OF u] have "history s' = history s @ [Waiting c t]"
    by (cases s') (cases s, simp)
  with u show ?thesis by (simp add: webdriver_wait_until_def)
qed

text \<open>
  C8, at the explicit timeout 0: \<^verbatim>\<open>timeout or self.timeout\<close> reads 0 as no timeout, so
  both wait primitives start their \<^verbatim>\<open>WebDriverWait\<close> with the session-wide timeout.
  With a session timeout of 3 and an element that appears at tick 2, the wait called with
  \<^verbatim>\<open>timeout=0\<close> returns the element, where a \<^verbatim>\<open>WebDriverWait\<close> of timeout 0 polls once
  and raises \<^verbatim>\<open>TimeoutException\<close>.
\<close>

theorem explicit_zero_timeout_uses_session_timeout:
  "history (snd (wait_for_element_visibility loc (Some 0) s))
     = history s @ [Waiting (visibility_of_element_located loc) (timeout s)]
   \<and> history (snd (wait_for_element_clickable loc (Some 0) s))
     = history s @ [Waiting (element_to_be_clickable loc) (timeout s)]
   \<and> fst (wait_for_element_visibility field_errors (Some 0)
             (new_parser 3 (appearing_at 2 field_errors) (\<lambda>n. 2) []))
     = Inr (field_errors, \<lparr>displayed = True, enabled = True, inner_text = []\<rparr>)
   \<and> fst (webdriver_wait_until 0 (visibility_of_element_located field_errors)
             (new_parser 3 (appearing_at 2 field_errors) (\<lambda>n. 2) []))
     = Inl TimeoutException"
proof -
  have "fst (wait_for_element_visibility field_errors (Some 0)
             (new_parser 3 (appearing_at 2 field_errors) (\<lambda>n. 2) []))
     = Inr (field_errors, \<lparr>displayed = True, enabled = True, inner_text = []\<rparr>)"
    by code_simp
  moreover have "fst (webdriver_wait_until 0 (visibility_of_element_located field_errors)
             (new_parser 3 (appearing_at 2 field_errors) (\<lambda>n. 2) []))
     = Inl TimeoutException"
    by code_simp
  ultimately show ?thesis
    by (simp add: wait_for_element_visibility_def wait_for_element_clickable_def timeout_or_def
        wait_history)
qed

text \<open>
  The timeout a wait primitive uses, for every argument: the session-wide one when none is
  passed or 0 is passed, the passed one otherwise.
\<close>

lemma wait_primitives_timeout:
  "history (snd (wait_for_element_visibility loc t s))
     = history s @ [Waiting (visibility_of_element_located loc)
                      (case t of None \<Rightarrow> timeout s | Some v \<Rightarrow> if v = 0 then timeout s else v)]
   \<and> history (snd (wait_for_element_clickable loc t s))
     = history s @ [Waiting (element_to_be_clickable loc)
                      (case t of None \<Rightarrow> timeout s | Some v \<Rightarrow> if v = 0 then timeout s else v)]"
  by (simp add: wait_for_element_visibility_def wait_for_element_clickable_def timeout_or_def
      wait_history)

text \<open>
  C9: \<^verbatim>\<open>_is_element_displayed\<close> never raises; it returns \<^verbatim>\<open>True\<close> exactly when the
  locator finds an element and that element is displayed, so an element that is in the
  DOM but not displayed is classified as an absent one is: \<^verbatim>\<open>False\<close>. The session is
  left as it was.
\<close>

theorem is_element_displayed_iff:
  "is_element_displayed loc s =
     (Inr (case page s (clock s) loc of None \<Rightarrow> False | Some e \<Rightarrow> displayed e), s)"
  by (simp add: is_element_displayed_def then_do_def suppress_def find_element_def find_in_def
      returns_def is_displayed_def split: option.split)

lemma none_visible_during_iff:
  "none_visible_during s n locs = (\<forall>k \<le> n. \<forall>loc \<in> set locs. \<not> visible (page s (clock s + k)) loc)"
  by (simp add: none_visible_during_def all_le_list list_all_iff)

lemma none_clickable_during_iff:
  "none_clickable_during s n locs = (\<forall>k \<le> n. \<forall>loc \<in> set locs. \<not> clickable (page s (clock s + k)) loc)"
  by (simp add: none_clickable_during_def all_le_list list_all_iff)

lemma wait_visible_timeout:
  "none_visible_during s t locs \<Longrightarrow>
   webdriver_wait_until t (any_of (map visibility_of_element_located locs)) s =
     (Inl TimeoutException, timed_out (any_of (map visibility_of_element_located locs)) t s)"
  unfolding timed_out_def
  by (rule wait_timeout) (simp add: none_visible_during_iff)

lemma wait_visible1_timeout:
  "none_visible_during s t [loc] \<Longrightarrow>
   webdriver_wait_until t (visibility_of_element_located loc) s =
     (Inl TimeoutException, timed_out (visibility_of_element_located loc) t s)"
  unfolding timed_out_def
  by (rule wait_timeout) (simp add: none_visible_during_iff)

lemma wait_clickable1_timeout:
  "none_clickable_during s t [loc] \<Longrightarrow>
   webdriver_wait_until t (element_to_be_clickable loc) s =
     (Inl TimeoutException, timed_out (element_to_be_clickable loc) t s)"
  unfolding timed_out_def
  by (rule wait_timeout) (simp add: none_clickable_during_iff)

lemma rom_race_map: "rom_race = any_of (map visibility_of_element_located [pnlData, pnlNoData])"
  by (simp add: rom_race_def)

lemma arbitr_race_map: "arbitr_race = any_of (map visibility_of_element_located [b_noResults, b_results])"
  by (simp add: arbitr_race_def)

lemma inn_race_map:
  "inn_race = any_of (map visibility_of_element_located [result_0, result_1, result_3, result_err])"
  by (simp add: inn_race_def)

lemma rom_race_timeout:
  assumes "then_do (rom_input_inn inn) (\<lambda>_. then_do rom_submit_search (\<lambda>_. rom_check_entry_validation)) s
           = (Inr u, s1)"
    and "none_visible_during s1 (timeout s1) [pnlData, pnlNoData]"
  shows "rom_parse inn s = (Inl ServiceUnavailableError, timed_out rom_race (timeout s1) s1)"
proof -
  have "rom_steps inn =
    then_do (then_do (rom_input_inn inn) (\<lambda>_. then_do rom_submit_search (\<lambda>_. rom_check_entry_validation)))
      (\<lambda>_. rom_check_result)"
    by (simp add: rom_steps_def then_do_assoc then_do_returns)
  then have "rom_steps inn s = rom_check_result s1"
    using assms(1) by (simp add: then_do_Inr)
  moreover have "rom_check_result s1 = (Inl TimeoutException, timed_out rom_race (timeout s1) s1)"
    using wait_visible_timeout[OF assms(2)]
    by (simp add: rom_check_result_def rom_wait_for_result_display_def then_do_def rom_race_map)
  ultimately show ?thesis by (simp add: rom_parse_def parse_try_Timeout)
qed

lemma arbitr_race_timeout:
  assumes "then_do arbitr_close_notification (\<lambda>_. then_do (arbitr_input_inn inn) (\<lambda>_. arbitr_submit_search)) s
           = (Inr u, s1)"
    and "none_visible_during s1 (timeout s1) [b_noResults, b_results]"
  shows "arbitr_parse inn s = (Inl ServiceUnavailableError, timed_out arbitr_race (timeout s1) s1)"
proof -
  have "arbitr_steps inn =
    then_do (then_do arbitr_close_notification (\<lambda>_. then_do (arbitr_input_inn inn) (\<lambda>_. arbitr_submit_search)))
      (\<lambda>_. arbitr_check_result)"
    by (simp add: arbitr_steps_def then_do_assoc then_do_returns)
  then have "arbitr_steps inn s = arbitr_check_result s1"
    using assms(1) by (simp add: then_do_Inr)
  moreover have "arbitr_check_result s1 = (Inl TimeoutException, timed_out arbitr_race (timeout s1) s1)"
    using wait_visible_timeout[OF assms(2)]
    by (simp add: arbitr_check_result_def arbitr_wait_for_result_display_def then_do_def arbitr_race_map)
  ultimately show ?thesis by (simp add: arbitr_parse_def parse_try_Timeout)
qed

lemma inn_race_timeout:
  assumes "then_do inn_bypass_personal_data_block (\<lambda>_.
           then_do (inn_fill_personal_info surname name lastname birthdate passport) (\<lambda>_.
           then_do inn_submit_form (\<lambda>_. inn_validate_input))) s = (Inr u, s1)"
    and "none_visible_during s1 (timeout s1) [result_0, result_1, result_3, result_err]"
  shows "inn_parse surname name lastname birthdate passport s =
           (Inl ServiceUnavailableError, timed_out inn_race (timeout s1) s1)"
proof -
  have "inn_steps surname name lastname birthdate passport =
    then_do (then_do inn_bypass_personal_data_block (\<lambda>_.
           then_do (inn_fill_personal_info surname name lastname birthdate passport) (\<lambda>_.
           then_do inn_submit_form (\<lambda>_. inn_validate_input))))
      (\<lambda>_. inn_parse_result)"
    by (simp add: inn_steps_def then_do_assoc)
  then have "inn_steps surname name lastname birthdate passport s = inn_parse_result s1"
    using assms(1) by (simp add: then_do_Inr)
  moreover have "inn_parse_result s1 = (Inl TimeoutException, timed_out inn_race (timeout s1) s1)"
    using wait_visible_timeout[OF assms(2)]
    by (simp add: inn_parse_result_def inn_wait_for_result_display_def then_do_def inn_race_map)
  ultimately show ?thesis by (simp add: inn_parse_def parse_try_Timeout)
qed

lemma npd_result_timeout:
  assumes "then_do (npd_fill_inn_field inn) (\<lambda>_. then_do npd_fill_date_field (\<lambda>_.
           then_do npd_submit_form (\<lambda>_. npd_check_entry_validation))) s = (Inr u, s1)"
    and "none_visible_during s1 (timeout s1) [npd_result]"
  shows "npd_parse w inn s =
           (Inl ServiceUnavailableError, timed_out (visibility_of_element_located npd_result) (timeout s1) s1)"
proof -
  have "npd_steps w inn =
    then_do (then_do (npd_fill_inn_field inn) (\<lambda>_. then_do npd_fill_date_field (\<lambda>_.
           then_do npd_submit_form (\<lambda>_. npd_check_entry_validation))))
      (\<lambda>_. then_do npd_get_result_text (\<lambda>result_text. (\<lambda>s. (analyze_result w result_text, s))))"
    by (simp add: npd_steps_def then_do_assoc)
  then have "npd_steps w inn s =
      then_do npd_get_result_text (\<lambda>result_text. (\<lambda>s. (analyze_result w result_text, s))) s1"
    using assms(1) by (simp add: then_do_Inr)
  moreover have "npd_get_result_text s1 =
      (Inl TimeoutException, timed_out (visibility_of_element_located npd_result) (timeout s1) s1)"
    using wait_visible1_timeout[OF assms(2)]
    by (simp add: npd_get_result_text_def then_do_def)
  ultimately show ?thesis by (simp add: npd_parse_def parse_try_Timeout then_do_Inl)
qed


text \<open>
  C4: when the steps before the Race have completed, leaving the session \<open>s1\<close>, and no
  terminal marker is visible at any poll of the Race (the ticks from the current one to the
  session timeout), \<^verbatim>\<open>parse\<close> raises \<^verbatim>\<open>ServiceUnavailableError\<close>; the Race is the last
  command sent. This holds for the four parsers; for \<^verbatim>\<open>NpdParser\<close> the Race is the wait
  for the result text.
\<close>

theorem no_marker_before_timeout_raises_ServiceUnavailable:
  "(then_do (rom_input_inn inn) (\<lambda>_. then_do rom_submit_search (\<lambda>_. rom_check_entry_validation)) s
      = (Inr u, s1)
    \<longrightarrow> none_visible_during s1 (timeout s1) [pnlData, pnlNoData]
    \<longrightarrow> rom_parse inn s = (Inl ServiceUnavailableError, timed_out rom_race (timeout s1) s1))
   \<and> (then_do arbitr_close_notification (\<lambda>_.
       then_do (arbitr_input_inn inn_a) (\<lambda>_. arbitr_submit_search)) sa = (Inr ua, sa1)
    \<longrightarrow> none_visible_during sa1 (timeout sa1) [b_noResults, b_results]
    \<longrightarrow> arbitr_parse inn_a sa = (Inl ServiceUnavailableError, timed_out arbitr_race (timeout sa1) sa1))
   \<and> (then_do inn_bypass_personal_data_block (\<lambda>_.
       then_do (inn_fill_personal_info surname name lastname birthdate passport) (\<lambda>_.
       then_do inn_submit_form (\<lambda>_. inn_validate_input))) si = (Inr ui, si1)
    \<longrightarrow> none_visible_during si1 (timeout si1) [result_0, result_1, result_3, result_err]
    \<longrightarrow> inn_parse surname name lastname birthdate passport si
          = (Inl ServiceUnavailableError, timed_out inn_race (timeout si1) si1))
   \<and> (then_do (npd_fill_inn_field inn_n) (\<lambda>_. then_do npd_fill_date_field (\<lambda>_.
       then_do npd_submit_form (\<lambda>_. npd_check_entry_validation))) sn = (Inr un, sn1)
    \<longrightarrow> none_visible_during sn1 (timeout sn1) [npd_result]
    \<longrightarrow> npd_parse w inn_n sn
          = (Inl ServiceUnavailableError,
             timed_out (visibility_of_element_located npd_result) (timeout sn1) sn1))"
proof (intro conjI impI)
  assume "then_do (rom_input_inn inn) (\<lambda>_. then_do rom_submit_search (\<lambda>_. rom_check_entry_validation)) s
      = (Inr u, s1)" and "none_visible_during s1 (timeout s1) [pnlData, pnlNoData]"
  then show "rom_parse inn s = (Inl ServiceUnavailableError, timed_out rom_race (timeout s1) s1)"
    by (rule rom_race_timeout)
next
  assume "then_do arbitr_close_notification (\<lambda>_.
       then_do (arbitr_input_inn inn_a) (\<lambda>_. arbitr_submit_search)) sa = (Inr ua, sa1)"
    and "none_visible_during sa1 (timeout sa1) [b_noResults, b_results]"
  then show "arbitr_parse inn_a sa
      = (Inl ServiceUnavailableError, timed_out arbitr_race (timeout sa1) sa1)"
    by (rule arbitr_race_timeout)
next
  assume "then_do inn_bypass_personal_data_block (\<lambda>_.
       then_do (inn_fill_personal_info surname name lastname birthdate passport) (\<lambda>_.
       then_do inn_submit_form (\<lambda>_. inn_validate_input))) si = (Inr ui, si1)"
    and "none_visible_during si1 (timeout si1) [result_0, result_1, result_3, result_err]"
  then show "inn_parse surname name lastname birthdate passport si
          = (Inl ServiceUnavailableError, timed_out inn_race (timeout si1) si1)"
    by (rule inn_race_timeout)
next
  assume "then_do (npd_fill_inn_field inn_n) (\<lambda>_. then_do npd_fill_date_field (\<lambda>_.
       then_do npd_submit_form (\<lambda>_. npd_check_entry_validation))) sn = (Inr un, sn1)"
    and "none_visible_during sn1 (timeout sn1) [npd_result]"
  then show "npd_parse w inn_n sn
          = (Inl ServiceUnavailableError,
             timed_out (visibility_of_element_located npd_result) (timeout sn1) sn1)"
    by (rule npd_result_timeout)
qed

theorem no_marker_before_timeout_witness:
  "fst (rom_parse [55] (world [rom_query, rom_submit_button] [])) = Inl ServiceUnavailableError
   \<and> fst (arbitr_parse [55] (world [arbitr_inn_field, arbitr_submit_button] []))
       = Inl ServiceUnavailableError
   \<and> fst (inn_parse [1] [2] [3] [4] [5] (world [fam, nam, otch, bdate, docno] []))
       = Inl ServiceUnavailableError
   \<and> fst (npd_parse ascii_russian_word [55] (world [npd_tbINN, npd_tbDate, npd_btSend] []))
       = Inl ServiceUnavailableError"
proof -
  let ?s = "world [rom_query, rom_submit_button] []"
  let ?p = "then_do (rom_input_inn [55]) (\<lambda>_. then_do rom_submit_search (\<lambda>_. rom_check_entry_validation))"
  have "fst (?p ?s) = Inr ()" by code_simp
  then have r1: "?p ?s = (Inr (), snd (?p ?s))" by (metis prod.collapse)
  have r2: "none_visible_during (snd (?p ?s)) (timeout (snd (?p ?s))) [pnlData, pnlNoData]"
    by code_simp
  let ?sa = "world [arbitr_inn_field, arbitr_submit_button] []"
  let ?pa = "then_do arbitr_close_notification (\<lambda>_.
       then_do (arbitr_input_inn [55]) (\<lambda>_. arbitr_submit_search))"
  have "fst (?pa ?sa) = Inr ()" by code_simp
  then have a1: "?pa ?sa = (Inr (), snd (?pa ?sa))" by (metis prod.collapse)
  have a2: "none_visible_during (snd (?pa ?sa)) (timeout (snd (?pa ?sa))) [b_noResults, b_results]"
    by code_simp
  let ?si = "world [fam, nam, otch, bdate, docno] []"
  let ?pi = "then_do inn_bypass_personal_data_block (\<lambda>_.
       then_do (inn_fill_personal_info [1] [2] [3] [4] [5]) (\<lambda>_.
       then_do inn_submit_form (\<lambda>_. inn_validate_input)))"
  have "fst (?pi ?si) = Inr ()" by code_simp
  then have i1: "?pi ?si = (Inr (), snd (?pi ?si))" by (metis prod.collapse)
  have i2: "none_visible_during (snd (?pi ?si)) (timeout (snd (?pi ?si)))
      [result_0, result_1, result_3, result_err]"
    by code_simp
  let ?sn = "world [npd_tbINN, npd_tbDate, npd_btSend] []"
  let ?pn = "then_do (npd_fill_inn_field [55]) (\<lambda>_. then_do npd_fill_date_field (\<lambda>_.
       then_do npd_submit_form (\<lambda>_. npd_check_entry_validation)))"
  have "fst (?pn ?sn) = Inr ()" by code_simp
  then have n1: "?pn ?sn = (Inr (), snd (?pn ?sn))" by (metis prod.collapse)
  have n2: "none_visible_during (snd (?pn ?sn)) (timeout (snd (?pn ?sn))) [npd_result]"
    by code_simp
  note inst = no_marker_before_timeout_raises_ServiceUnavailable
    [where inn = "[55]" and s = ?s and u = "()" and ?s1.0 = "snd (?p ?s)"
       and inn_a = "[55]" and sa = ?sa and ua = "()" and ?sa1.0 = "snd (?pa ?sa)"
       and surname = "[1]" and name = "[2]" and lastname = "[3]" and birthdate = "[4]"
       and passport = "[5]" and si = ?si and ui = "()" and ?si1.0 = "snd (?pi ?si)"
       and inn_n = "[55]" and sn = ?sn and un = "()" and ?sn1.0 = "snd (?pn ?sn)"
       and w = ascii_russian_word]
  from inst r1 r2 have "fst (rom_parse [55] ?s) = Inl ServiceUnavailableError" by simp
  moreover from inst a1 a2 have "fst (arbitr_parse [55] ?sa) = Inl ServiceUnavailableError" by simp
  moreover from inst i1 i2 have "fst (inn_parse [1] [2] [3] [4] [5] ?si) = Inl ServiceUnavailableError"
    by simp
  moreover from inst n1 n2 have "fst (npd_parse ascii_russian_word [55] ?sn) = Inl ServiceUnavailableError"
    by simp
  ultimately show ?thesis by simp
qed

lemma wait_resolves:
  assumes "k \<le> t" and "satisfied c (page s (clock s + k))"
  shows "\<exists>h j. webdriver_wait_until t c s = (Inr h, resolved c t j s) \<and> j \<le> k
     \<and> check c (page s (clock s + j)) = Inr (Some h)
     \<and> (\<forall>i < j. \<not> satisfied c (page s (clock s + i)))"
  unfolding resolved_def using wait_found[OF assms] .

lemma rom_validation_found:
  assumes "k \<le> 2" and "visible (page s1 (clock s1 + k)) field_errors"
  shows "\<exists>j \<le> k. rom_check_entry_validation s1 =
     (Inl FieldFormatError, resolved (visibility_of_element_located field_errors) 2 j s1)"
proof -
  from assms(2) have "satisfied (visibility_of_element_located field_errors) (page s1 (clock s1 + k))"
    by simp
  from wait_resolves[OF assms(1) this] obtain h j where
    "webdriver_wait_until 2 (visibility_of_element_located field_errors) s1 =
      (Inr h, resolved (visibility_of_element_located field_errors) 2 j s1)" and "j \<le> k"
    by blast
  then show ?thesis
    by (auto simp: rom_check_entry_validation_def wait_for_element_visibility_def timeout_or_def
        then_do_def suppress_def truthy_def raises_def)
qed

lemma rom_validation_raises:
  assumes "then_do (rom_input_inn inn) (\<lambda>_. rom_submit_search) s = (Inr u, s1)"
    and "k \<le> 2" and "visible (page s1 (clock s1 + k)) field_errors"
  shows "\<exists>j \<le> k. rom_parse inn s =
     (Inl FieldFormatError, resolved (visibility_of_element_located field_errors) 2 j s1)"
proof -
  have "rom_steps inn =
    then_do (then_do (rom_input_inn inn) (\<lambda>_. rom_submit_search))
      (\<lambda>_. then_do rom_check_entry_validation (\<lambda>_. rom_check_result))"
    by (simp add: rom_steps_def then_do_assoc then_do_returns)
  then have "rom_steps inn s = then_do rom_check_entry_validation (\<lambda>_. rom_check_result) s1"
    using assms(1) by (simp add: then_do_Inr)
  moreover from rom_validation_found[OF assms(2,3)] obtain j where "j \<le> k"
    and "rom_check_entry_validation s1 =
     (Inl FieldFormatError, resolved (visibility_of_element_located field_errors) 2 j s1)" by blast
  ultimately show ?thesis
    by (auto simp: rom_parse_def then_do_Inl parse_try_def)
qed

lemma npd_validation_found:
  assumes "k \<le> 2" and "visible (page s1 (clock s1 + k)) loc"
    and "loc \<in> {npd_RequiredFieldValidator1, npd_cv_Inn, npd_RequiredFieldValidator2, npd_CustomValidator1}"
  shows "\<exists>j \<le> k. npd_check_entry_validation s1 =
     (Inl FieldFormatError, resolved npd_validators 2 j s1)"
proof -
  from assms(2,3) have "satisfied npd_validators (page s1 (clock s1 + k))"
    by (auto simp: npd_validators_def)
  from wait_resolves[OF assms(1) this] obtain h j where
    "webdriver_wait_until 2 npd_validators s1 = (Inr h, resolved npd_validators 2 j s1)" and "j \<le> k"
    by blast
  then show ?thesis
    by (auto simp: npd_check_entry_validation_def then_do_def suppress_def raises_def)
qed

lemma npd_validation_raises:
  assumes "then_do (npd_fill_inn_field inn) (\<lambda>_. then_do npd_fill_date_field (\<lambda>_. npd_submit_form)) s
      = (Inr u, s1)"
    and "k \<le> 2" and "visible (page s1 (clock s1 + k)) loc"
    and "loc \<in> {npd_RequiredFieldValidator1, npd_cv_Inn, npd_RequiredFieldValidator2, npd_CustomValidator1}"
  shows "\<exists>j \<le> k. npd_parse w inn s = (Inl FieldFormatError, resolved npd_validators 2 j s1)"
proof -
  have "npd_steps w inn =
    then_do (then_do (npd_fill_inn_field inn) (\<lambda>_. then_do npd_fill_date_field (\<lambda>_. npd_submit_form)))
      (\<lambda>_. then_do npd_check_entry_validation (\<lambda>_.
         then_do npd_get_result_text (\<lambda>result_text. (\<lambda>s. (analyze_result w result_text, s)))))"
    by (simp add: npd_steps_def then_do_assoc)
  then have "npd_steps w inn s = then_do npd_check_entry_validation (\<lambda>_.
         then_do npd_get_result_text (\<lambda>result_text. (\<lambda>s. (analyze_result w result_text, s)))) s1"
    using assms(1) by (simp add: then_do_Inr)
  moreover from npd_validation_found[OF assms(2,3,4)] obtain j where "j \<le> k"
    and "npd_check_entry_validation s1 = (Inl FieldFormatError, resolved npd_validators 2 j s1)"
    by blast
  ultimately show ?thesis
    by (auto simp: npd_parse_def then_do_Inl parse_try_def)
qed

lemma inn_validation_found:
  assumes "k \<le> 2" and "visible (page s1 (clock s1 + k)) field_errors"
  shows "\<exists>j \<le> k. inn_validate_input s1 = (Inl FieldFormatError, inn_rejected j s1)"
proof -
  let ?s2 = "s1\<lparr>implicit_wait := 0, history := history s1 @ [ImplicitlyWait 0]\<rparr>"
  from assms(2) have "satisfied (visibility_of_element_located field_errors) (page ?s2 (clock ?s2 + k))"
    by simp
  from wait_resolves[OF assms(1) this] obtain h j where
    w: "webdriver_wait_until 2 (visibility_of_element_located field_errors) ?s2 =
      (Inr h, resolved (visibility_of_element_located field_errors) 2 j ?s2)" and j: "j \<le> k"
    by blast
  have "inn_check_for_errors ?s2 =
      (Inl FieldFormatError, resolved (visibility_of_element_located field_errors) 2 j ?s2)"
    using w by (simp add: inn_check_for_errors_def wait_for_element_visibility_def timeout_or_def
        then_do_def suppress_def truthy_def raises_def)
  then have "inn_validate_input s1 = (Inl FieldFormatError, inn_rejected j s1)"
    by (simp add: inn_validate_input_def try_finally_def then_do_def implicitly_wait_def
        resolved_def inn_rejected_def)
  with j show ?thesis by blast
qed

lemma inn_validation_raises:
  assumes "then_do inn_bypass_personal_data_block (\<lambda>_.
           then_do (inn_fill_personal_info surname name lastname birthdate passport) (\<lambda>_.
           inn_submit_form)) s = (Inr u, s1)"
    and "k \<le> 2" and "visible (page s1 (clock s1 + k)) field_errors"
  shows "\<exists>j \<le> k. inn_parse surname name lastname birthdate passport s =
     (Inl FieldFormatError, inn_rejected j s1)"
proof -
  have "inn_steps surname name lastname birthdate passport =
    then_do (then_do inn_bypass_personal_data_block (\<lambda>_.
           then_do (inn_fill_personal_info surname name lastname birthdate passport) (\<lambda>_.
           inn_submit_form)))
      (\<lambda>_. then_do inn_validate_input (\<lambda>_. inn_parse_result))"
    by (simp add: inn_steps_def then_do_assoc)
  then have "inn_steps surname name lastname birthdate passport s =
      then_do inn_validate_input (\<lambda>_. inn_parse_result) s1"
    using assms(1) by (simp add: then_do_Inr)
  moreover from inn_validation_found[OF assms(2,3)] obtain j where "j \<le> k"
    and "inn_validate_input s1 = (Inl FieldFormatError, inn_rejected j s1)" by blast
  ultimately show ?thesis
    by (auto simp: inn_parse_def then_do_Inl parse_try_def)
qed

text \<open>
  C5: when the steps have completed, leaving the session \<open>s1\<close>, and a validation marker is
  visible at one of the three polls of the validation wait (timeout 2), \<^verbatim>\<open>parse\<close> raises
  \<^verbatim>\<open>FieldFormatError\<close> at the first such poll, and the validation wait is the last wait
  it started: the Race is not in the history. For \<^verbatim>\<open>InnParser\<close> the history also holds
  the two settings of the implicit wait that \<^verbatim>\<open>_validate_input\<close> makes.
\<close>

theorem validation_marker_raises_FieldFormatError:
  "(then_do (rom_input_inn inn) (\<lambda>_. rom_submit_search) s = (Inr u, s1)
    \<longrightarrow> k \<le> 2 \<longrightarrow> visible (page s1 (clock s1 + k)) field_errors
    \<longrightarrow> (\<exists>j \<le> k. rom_parse inn s =
          (Inl FieldFormatError, resolved (visibility_of_element_located field_errors) 2 j s1)))
   \<and> (then_do (npd_fill_inn_field inn_n) (\<lambda>_.
       then_do npd_fill_date_field (\<lambda>_. npd_submit_form)) sn = (Inr un, sn1)
    \<longrightarrow> kn \<le> 2 \<longrightarrow> visible (page sn1 (clock sn1 + kn)) loc
    \<longrightarrow> loc \<in> {npd_RequiredFieldValidator1, npd_cv_Inn, npd_RequiredFieldValidator2,
                npd_CustomValidator1}
    \<longrightarrow> (\<exists>j \<le> kn. npd_parse w inn_n sn = (Inl FieldFormatError, resolved npd_validators 2 j sn1)))
   \<and> (then_do inn_bypass_personal_data_block (\<lambda>_.
       then_do (inn_fill_personal_info surname name lastname birthdate passport) (\<lambda>_.
       inn_submit_form)) si = (Inr ui, si1)
    \<longrightarrow> ki \<le> 2 \<longrightarrow> visible (page si1 (clock si1 + ki)) field_errors
    \<longrightarrow> (\<exists>j \<le> ki. inn_parse surname name lastname birthdate passport si =
          (Inl FieldFormatError, inn_rejected j si1)))"
proof (intro conjI impI)
  assume "then_do (rom_input_inn inn) (\<lambda>_. rom_submit_search) s = (Inr u, s1)"
    and "k \<le> 2" and "visible (page s1 (clock s1 + k)) field_errors"
  then show "\<exists>j \<le> k. rom_parse inn s =
          (Inl FieldFormatError, resolved (visibility_of_element_located field_errors) 2 j s1)"
    by (rule rom_validation_raises)
next
  assume "then_do (npd_fill_inn_field inn_n) (\<lambda>_.
       then_do npd_fill_date_field (\<lambda>_. npd_submit_form)) sn = (Inr un, sn1)"
    and "kn \<le> 2" and "visible (page sn1 (clock sn1 + kn)) loc"
    and "loc \<in> {npd_RequiredFieldValidator1, npd_cv_Inn, npd_RequiredFieldValidator2,
                npd_CustomValidator1}"
  then show "\<exists>j \<le> kn. npd_parse w inn_n sn = (Inl FieldFormatError, resolved npd_validators 2 j sn1)"
    by (rule npd_validation_raises)
next
  assume "then_do inn_bypass_personal_data_block (\<lambda>_.
       then_do (inn_fill_personal_info surname name lastname birthdate passport) (\<lambda>_.
       inn_submit_form)) si = (Inr ui, si1)"
    and "ki \<le> 2" and "visible (page si1 (clock si1 + ki)) field_errors"
  then show "\<exists>j \<le> ki. inn_parse surname name lastname birthdate passport si =
          (Inl FieldFormatError, inn_rejected j si1)"
    by (rule inn_validation_raises)
qed

theorem validation_marker_witness:
  "fst (rom_parse [55] (world [rom_query, rom_submit_button, field_errors] [])) = Inl FieldFormatError
   \<and> (\<forall>t. Waiting rom_race t
         \<notin> set (history (snd (rom_parse [55] (world [rom_query, rom_submit_button, field_errors] [])))))
   \<and> fst (npd_parse ascii_russian_word [55] (world [npd_tbINN, npd_tbDate, npd_btSend, npd_cv_Inn] []))
       = Inl FieldFormatError
   \<and> fst (inn_parse [1] [2] [3] [4] [5] (world [fam, nam, otch, bdate, docno, field_errors] []))
       = Inl FieldFormatError"
proof -
  let ?s = "world [rom_query, rom_submit_button, field_errors] []"
  let ?p = "then_do (rom_input_inn [55]) (\<lambda>_. rom_submit_search)"
  have "fst (?p ?s) = Inr ()" by code_simp
  then have r1: "?p ?s = (Inr (), snd (?p ?s))" by (metis prod.collapse)
  have r2: "visible (page (snd (?p ?s)) (clock (snd (?p ?s)) + 0)) field_errors" by code_simp
  have r3: "history (snd (?p ?s)) =
    [Waiting (visibility_of_element_located rom_query) 1, SetValue rom_query [55],
     Waiting (element_to_be_clickable rom_submit_button) 1, ScriptClick rom_submit_button]"
    by code_simp
  let ?sn = "world [npd_tbINN, npd_tbDate, npd_btSend, npd_cv_Inn] []"
  let ?pn = "then_do (npd_fill_inn_field [55]) (\<lambda>_.
       then_do npd_fill_date_field (\<lambda>_. npd_submit_form))"
  have "fst (?pn ?sn) = Inr ()" by code_simp
  then have n1: "?pn ?sn = (Inr (), snd (?pn ?sn))" by (metis prod.collapse)
  have n2: "visible (page (snd (?pn ?sn)) (clock (snd (?pn ?sn)) + 0)) npd_cv_Inn" by code_simp
  let ?si = "world [fam, nam, otch, bdate, docno, field_errors] []"
  let ?pi = "then_do inn_bypass_personal_data_block (\<lambda>_.
       then_do (inn_fill_personal_info [1] [2] [3] [4] [5]) (\<lambda>_. inn_submit_form))"
  have "fst (?pi ?si) = Inr ()" by code_simp
  then have i1: "?pi ?si = (Inr (), snd (?pi ?si))" by (metis prod.collapse)
  have i2: "visible (page (snd (?pi ?si)) (clock (snd (?pi ?si)) + 0)) field_errors" by code_simp
  note inst = validation_marker_raises_FieldFormatError
    [where inn = "[55]" and s = ?s and u = "()" and ?s1.0 = "snd (?p ?s)" and k = 0
       and inn_n = "[55]" and sn = ?sn and un = "()" and ?sn1.0 = "snd (?pn ?sn)" and kn = 0
       and loc = npd_cv_Inn and w = ascii_russian_word
       and surname = "[1]" and name = "[2]" and lastname = "[3]" and birthdate = "[4]"
       and passport = "[5]" and si = ?si and ui = "()" and ?si1.0 = "snd (?pi ?si)" and ki = 0]
  from inst r1 r2 have r: "rom_parse [55] ?s =
     (Inl FieldFormatError, resolved (visibility_of_element_located field_errors) 2 0 (snd (?p ?s)))"
    by simp
  then have "fst (rom_parse [55] ?s) = Inl FieldFormatError" by simp
  moreover have "\<forall>t. Waiting rom_race t \<notin> set (history (snd (rom_parse [55] ?s)))"
    using r r3 by (simp add: resolved_def rom_race_def)
  moreover from inst n1 n2 have "fst (npd_parse ascii_russian_word [55] ?sn) = Inl FieldFormatError"
    by auto
  moreover from inst i1 i2 have "fst (inn_parse [1] [2] [3] [4] [5] ?si) = Inl FieldFormatError"
    by auto
  ultimately show ?thesis by simp
qed

lemma is_element_displayed_visible:
  "is_element_displayed loc s = (Inr (visible (page s (clock s)) loc), s)"
  by (simp add: is_element_displayed_def then_do_def suppress_def find_element_def find_in_def
      returns_def is_displayed_def visible_def split: option.split)

lemma arbitr_classify_eq:
  "arbitr_classify s =
     ((if visible (page s (clock s)) b_noResults then Inr False
       else if visible (page s (clock s)) b_results then Inr True
       else Inl UndefinedError), s)"
  by (simp add: arbitr_classify_def then_do_def is_element_displayed_visible returns_def raises_def)

lemma rom_classify_eq:
  "rom_classify s =
     ((if visible (page s (clock s)) pnlNoData then Inr False
       else if visible (page s (clock s)) pnlData then Inr True
       else Inl UndefinedError), s)"
  by (simp add: rom_classify_def then_do_def is_element_displayed_visible returns_def raises_def)

lemma inn_classify_eq:
  "inn_classify s =
     ((if visible (page s (clock s)) result_0 then Inl InnNotFoundError
       else if visible (page s (clock s)) result_1 then
         (case page s (clock s) resultInn of
            None \<Rightarrow> Inl NoSuchElementException
          | Some e \<Rightarrow> Inr (inner_text e))
       else if visible (page s (clock s)) result_3 then Inl DataVerificationError
       else if visible (page s (clock s)) result_err then Inl ServiceUnavailableError
       else Inl UndefinedError), s)"
  by (simp add: inn_classify_def then_do_def is_element_displayed_visible returns_def raises_def
      find_element_def find_in_def split: option.split)

lemma arbitr_parse_classifies:
  assumes "then_do arbitr_close_notification (\<lambda>_. then_do (arbitr_input_inn inn) (\<lambda>_.
           then_do arbitr_submit_search (\<lambda>_. arbitr_wait_for_result_display))) s = (Inr u, s1)"
  shows "arbitr_parse inn s =
     ((if visible (page s1 (clock s1)) b_noResults then Inr False
       else if visible (page s1 (clock s1)) b_results then Inr True
       else Inl UndefinedError), s1)"
proof -
  have "arbitr_steps inn =
    then_do (then_do arbitr_close_notification (\<lambda>_. then_do (arbitr_input_inn inn) (\<lambda>_.
           then_do arbitr_submit_search (\<lambda>_. arbitr_wait_for_result_display))))
      (\<lambda>_. arbitr_classify)"
    by (simp add: arbitr_steps_def arbitr_check_result_def then_do_assoc then_do_returns)
  then have "arbitr_steps inn s = arbitr_classify s1"
    using assms by (simp add: then_do_Inr)
  then show ?thesis
    by (simp add: arbitr_parse_def parse_try_def arbitr_classify_eq)
qed

text \<open>
  C6: the \<^verbatim>\<open>if\<close>/\<^verbatim>\<open>elif\<close>/\<^verbatim>\<open>else\<close> of \<^verbatim>\<open>ArbitrParser._check_result\<close>
  returns \<^verbatim>\<open>False\<close> when the no-results marker is displayed, \<^verbatim>\<open>True\<close> when it is
  not and the results marker is, and raises \<^verbatim>\<open>UndefinedError\<close> when neither is; and when
  the steps and the Race have completed, leaving the session \<open>s1\<close>, \<^verbatim>\<open>parse\<close> ends with
  that classification of \<open>s1\<close>. (The Race and the checks read the same snapshot here, so a
  run that got through the Race ends in one of the first two cases.)
\<close>

theorem arbitr_result_classification:
  "arbitr_classify s1 =
     ((if visible (page s1 (clock s1)) b_noResults then Inr False
       else if visible (page s1 (clock s1)) b_results then Inr True
       else Inl UndefinedError), s1)
   \<and> (then_do arbitr_close_notification (\<lambda>_. then_do (arbitr_input_inn inn) (\<lambda>_.
       then_do arbitr_submit_search (\<lambda>_. arbitr_wait_for_result_display))) s = (Inr u, s1)
      \<longrightarrow> arbitr_parse inn s = arbitr_classify s1)"
  using arbitr_parse_classifies[of inn s u s1] by (simp add: arbitr_classify_eq)

theorem arbitr_result_classification_witness:
  "fst (arbitr_parse [55] (world [arbitr_inn_field, arbitr_submit_button, b_noResults] [])) = Inr False
   \<and> fst (arbitr_parse [55] (world [arbitr_inn_field, arbitr_submit_button, b_results] [])) = Inr True
   \<and> fst (arbitr_classify (world [] [])) = Inl UndefinedError"
proof -
  let ?p = "then_do arbitr_close_notification (\<lambda>_. then_do (arbitr_input_inn [55]) (\<lambda>_.
       then_do arbitr_submit_search (\<lambda>_. arbitr_wait_for_result_display)))"
  let ?a = "world [arbitr_inn_field, arbitr_submit_button, b_noResults] []"
  let ?b = "world [arbitr_inn_field, arbitr_submit_button, b_results] []"
  have "fst (?p ?a) = Inr ()" by code_simp
  then have a1: "?p ?a = (Inr (), snd (?p ?a))" by (metis prod.collapse)
  have a2: "visible (page (snd (?p ?a)) (clock (snd (?p ?a)))) b_noResults" by code_simp
  have "fst (?p ?b) = Inr ()" by code_simp
  then have b1: "?p ?b = (Inr (), snd (?p ?b))" by (metis prod.collapse)
  have b2: "\<not> visible (page (snd (?p ?b)) (clock (snd (?p ?b)))) b_noResults" by code_simp
  have b3: "visible (page (snd (?p ?b)) (clock (snd (?p ?b)))) b_results" by code_simp
  have c: "\<not> visible (page (world [] []) (clock (world [] []))) b_noResults"
    "\<not> visible (page (world [] []) (clock (world [] []))) b_results" by code_simp+
  from arbitr_result_classification[of "snd (?p ?a)" "[55]" ?a "()"] a1 a2
  have "fst (arbitr_parse [55] ?a) = Inr False" by simp
  moreover from arbitr_result_classification[of "snd (?p ?b)" "[55]" ?b "()"] b1 b2 b3
  have "fst (arbitr_parse [55] ?b) = Inr True" by simp
  moreover from arbitr_result_classification[of "world [] []" "[55]" ?a "()"] c
  have "fst (arbitr_classify (world [] [])) = Inl UndefinedError" by simp
  ultimately show ?thesis by simp
qed


lemma until_returns_checked:
  "until c e s = (Inr h, s') \<Longrightarrow> check c (page s' (clock s')) = Inr (Some h)"
proof (induction c e s rule: until.induct)
  case (1 c e s)
  show ?case
  proof (cases "poll c s")
    case (Inl x)
    with "1.prems" show ?thesis by simp
  next
    case (Inr v)
    show ?thesis
    proof (cases v)
      case (Some h')
      with Inr "1.prems" have "s' = s" "h' = h" by simp_all
      with Inr Some show ?thesis
        by (auto simp: poll_def split: sum.splits if_splits)
    next
      case None
      show ?thesis
      proof (cases "e < clock s + 1")
        case True
        with Inr None "1.prems" show ?thesis by simp
      next
        case False
        with Inr None "1.prems"
        have "until c e (s\<lparr>clock := clock s + 1\<rparr>) = (Inr h, s')" by simp
        from "1.IH"[OF Inr None False this] show ?thesis .
      qed
    qed
  qed
qed

lemma wait_returns_checked:
  "webdriver_wait_until t c s = (Inr h, s') \<Longrightarrow> check c (page s' (clock s')) = Inr (Some h)"
  unfolding webdriver_wait_until_def by (rule until_returns_checked)

lemma locators_distinct:
  "result_0 \<noteq> result_1" "result_3 \<noteq> result_1" "result_err \<noteq> result_1"
  by (simp_all add: result_0_def result_1_def result_3_def result_err_def)

lemma inn_race_winner_result_1:
  assumes "check inn_race d = Inr (Some (result_1, el))"
  shows "\<not> visible d result_0 \<and> visible d result_1"
  using assms locators_distinct
  by (auto simp: inn_race_def find_in_def is_displayed_def visible_def webdriver_exception_def
      split: option.splits if_splits)

lemma inn_parse_returns_value:
  assumes "then_do inn_bypass_personal_data_block (\<lambda>_.
           then_do (inn_fill_personal_info surname name lastname birthdate passport) (\<lambda>_.
           then_do inn_submit_form (\<lambda>_. inn_validate_input))) s = (Inr u, s1)"
    and "webdriver_wait_until (timeout s1) inn_race s1 = (Inr (result_1, el), s2)"
    and "page s2 (clock s2) resultInn = Some e"
  shows "inn_parse surname name lastname birthdate passport s = (Inr (inner_text e), s2)"
proof -
  have "inn_steps surname name lastname birthdate passport =
    then_do (then_do inn_bypass_personal_data_block (\<lambda>_.
           then_do (inn_fill_personal_info surname name lastname birthdate passport) (\<lambda>_.
           then_do inn_submit_form (\<lambda>_. inn_validate_input))))
      (\<lambda>_. inn_parse_result)"
    by (simp add: inn_steps_def then_do_assoc)
  then have "inn_steps surname name lastname birthdate passport s = inn_parse_result s1"
    using assms(1) by (simp add: then_do_Inr)
  moreover have "inn_parse_result s1 = inn_classify s2"
    using assms(2)
    by (simp add: inn_parse_result_def inn_wait_for_result_display_def then_do_def returns_def)
  moreover have "\<not> visible (page s2 (clock s2)) result_0 \<and> visible (page s2 (clock s2)) result_1"
    using wait_returns_checked[OF assms(2)] by (rule inn_race_winner_result_1)
  ultimately show ?thesis
    using assms(3) by (simp add: inn_parse_def parse_try_def inn_classify_eq)
qed

text \<open>
  C7: when the steps and the validation of \<^verbatim>\<open>InnParser.parse\<close> have completed, the Race
  returns the element found by \<^verbatim>\<open>result_1\<close> (the success marker is its winner) and
  \<^verbatim>\<open>resultInn\<close> finds an element \<open>e\<close>, \<^verbatim>\<open>parse\<close> returns exactly the text of \<open>e\<close>.
\<close>

theorem race_winner_result_1_returns_text:
  "then_do inn_bypass_personal_data_block (\<lambda>_.
     then_do (inn_fill_personal_info surname name lastname birthdate passport) (\<lambda>_.
     then_do inn_submit_form (\<lambda>_. inn_validate_input))) s = (Inr u, s1)
   \<Longrightarrow> webdriver_wait_until (timeout s1) inn_race s1 = (Inr (result_1, el), s2)
   \<Longrightarrow> page s2 (clock s2) resultInn = Some e
   \<Longrightarrow> inn_parse surname name lastname birthdate passport s = (Inr (inner_text e), s2)"
  by (rule inn_parse_returns_value)

theorem race_winner_result_1_witness:
  "fst (inn_parse [1] [2] [3] [4] [5]
         (world [resultInn, result_1, fam, nam, otch, bdate, docno] [49, 50, 51, 52, 53, 54, 55, 56, 57, 48, 49, 50]))
   = Inr [49, 50, 51, 52, 53, 54, 55, 56, 57, 48, 49, 50]"
proof -
  let ?txt = "[49, 50, 51, 52, 53, 54, 55, 56, 57, 48, 49, 50] :: pystr"
  let ?w = "world [resultInn, result_1, fam, nam, otch, bdate, docno] ?txt"
  let ?p = "then_do inn_bypass_personal_data_block (\<lambda>_.
     then_do (inn_fill_personal_info [1] [2] [3] [4] [5]) (\<lambda>_.
     then_do inn_submit_form (\<lambda>_. inn_validate_input)))"
  let ?s1 = "snd (?p ?w)"
  let ?r = "webdriver_wait_until (timeout ?s1) inn_race ?s1"
  let ?e = "\<lparr>displayed = True, enabled = True, inner_text = ?txt\<rparr>"
  have "fst (?p ?w) = Inr ()" by code_simp
  then have a: "?p ?w = (Inr (), ?s1)" by (metis prod.collapse)
  have "fst ?r = Inr (result_1, \<lparr>displayed = True, enabled = True, inner_text = []\<rparr>)" by code_simp
  then have b: "?r = (Inr (result_1, \<lparr>displayed = True, enabled = True, inner_text = []\<rparr>), snd ?r)"
    by (metis prod.collapse)
  have c: "page (snd ?r) (clock (snd ?r)) resultInn = Some ?e" by code_simp
  from race_winner_result_1_returns_text[OF a b c] show ?thesis by simp
qed


text \<open>
  C3, as stated, fails: with the success marker \<^verbatim>\<open>result_1\<close> and an error marker
  (\<^verbatim>\<open>result_3\<close> or \<^verbatim>\<open>result_err\<close>) displayed at the same tick,
  \<^verbatim>\<open>InnParser._parse_result\<close> returns the value read from \<^verbatim>\<open>resultInn\<close>.
\<close>

theorem success_marker_beats_error_marker:
  "visible (page (world [resultInn, result_1, result_3] [55, 55]) 0) result_1
   \<and> visible (page (world [resultInn, result_1, result_3] [55, 55]) 0) result_3
   \<and> fst (inn_parse_result (world [resultInn, result_1, result_3] [55, 55])) = Inr [55, 55]
   \<and> fst (inn_parse_result (world [resultInn, result_1, result_err] [55, 55])) = Inr [55, 55]"
  by code_simp

lemma inn_parse_result_classifies:
  "inn_wait_for_result_display s = (Inr u, s1) \<Longrightarrow> inn_parse_result s = inn_classify s1"
  by (simp add: inn_parse_result_def then_do_Inr)

text \<open>
  C3, amended: the outcome of \<^verbatim>\<open>_parse_result\<close> is decided by the first displayed marker
  in the fixed order of its \<^verbatim>\<open>if\<close>/\<^verbatim>\<open>elif\<close> chain: \<^verbatim>\<open>result_0\<close>
  (\<^verbatim>\<open>InnNotFoundError\<close>), then \<^verbatim>\<open>result_1\<close> (the text of \<^verbatim>\<open>resultInn\<close>, or
  \<^verbatim>\<open>NoSuchElementException\<close> when that element is missing), then \<^verbatim>\<open>result_3\<close>
  (\<^verbatim>\<open>DataVerificationError\<close>), then \<^verbatim>\<open>result_err\<close> (\<^verbatim>\<open>ServiceUnavailableError\<close>),
  and \<^verbatim>\<open>UndefinedError\<close> when none is displayed; \<^verbatim>\<open>_parse_result\<close> applies it to the
  session the Race leaves. \<^verbatim>\<open>RomParser\<close> and \<^verbatim>\<open>ArbitrParser\<close> check their no-data
  marker first, then their data marker.
\<close>

theorem marker_precedence_is_check_order:
  "inn_classify s1 =
     ((if visible (page s1 (clock s1)) result_0 then Inl InnNotFoundError
       else if visible (page s1 (clock s1)) result_1 then
         (case page s1 (clock s1) resultInn of
            None \<Rightarrow> Inl NoSuchElementException
          | Some e \<Rightarrow> Inr (inner_text e))
       else if visible (page s1 (clock s1)) result_3 then Inl DataVerificationError
       else if visible (page s1 (clock s1)) result_err then Inl ServiceUnavailableError
       else Inl UndefinedError), s1)
   \<and> (inn_wait_for_result_display s = (Inr u, s1) \<longrightarrow> inn_parse_result s = inn_classify s1)
   \<and> rom_classify sr =
     ((if visible (page sr (clock sr)) pnlNoData then Inr False
       else if visible (page sr (clock sr)) pnlData then Inr True
       else Inl UndefinedError), sr)
   \<and> arbitr_classify sa =
     ((if visible (page sa (clock sa)) b_noResults then Inr False
       else if visible (page sa (clock sa)) b_results then Inr True
       else Inl UndefinedError), sa)"
  using inn_parse_result_classifies[of s u s1]
  by (simp add: inn_classify_eq rom_classify_eq arbitr_classify_eq)

theorem marker_precedence_witness:
  "fst (inn_parse_result (world [resultInn, result_0, result_1, result_3, result_err] [55]))
     = Inl InnNotFoundError
   \<and> fst (inn_parse_result (world [resultInn, result_1, result_3, result_err] [55])) = Inr [55]
   \<and> fst (inn_parse_result (world [resultInn, result_3, result_err] [55])) = Inl DataVerificationError
   \<and> fst (inn_parse_result (world [resultInn, result_err] [55])) = Inl ServiceUnavailableError"
proof -
  have step: "fst (inn_parse_result w) = r"
    if "fst (inn_wait_for_result_display w) = Inr ()"
      and "fst (inn_classify (snd (inn_wait_for_result_display w))) = r" for w r
  proof -
    from that(1) have "inn_wait_for_result_display w = (Inr (), snd (inn_wait_for_result_display w))"
      by (metis prod.collapse)
    with marker_precedence_is_check_order
      [where ?s1.0 = "snd (inn_wait_for_result_display w)" and s = w and u = "()"] that(2)
    show ?thesis by simp
  qed
  have "fst (inn_parse_result (world [resultInn, result_0, result_1, result_3, result_err] [55]))
     = Inl InnNotFoundError"
    by (rule step) code_simp+
  moreover have "fst (inn_parse_result (world [resultInn, result_1, result_3, result_err] [55])) = Inr [55]"
    by (rule step) code_simp+
  moreover have "fst (inn_parse_result (world [resultInn, result_3, result_err] [55]))
     = Inl DataVerificationError"
    by (rule step) code_simp+
  moreover have "fst (inn_parse_result (world [resultInn, result_err] [55])) = Inl ServiceUnavailableError"
    by (rule step) code_simp+
  ultimately show ?thesis by simp
qed

lemma parse_try_cases:
  "parse_try body s = body s \<or> fst (body s) = Inl NoSuchElementException
     \<or> fst (body s) = Inl TimeoutException"
  by (auto simp: parse_try_def split: prod.splits sum.splits)

lemma sub_step_error_propagates:
  assumes "steps = then_do pre (\<lambda>_. then_do step rest)"
    and "pre s = (Inr u, s1)" and "step s1 = (Inl e, s')" and "domain_error e"
  shows "parse_try steps s = (Inl e, s')"
proof -
  have "steps s = (Inl e, s')" using assms(1,2,3) by (simp add: then_do_Inr then_do_Inl)
  then show ?thesis using assms(4) by (rule parse_try_domain)
qed

lemma rom_validation_error_propagates:
  assumes "then_do (rom_input_inn inn) (\<lambda>_. rom_submit_search) s = (Inr u, s1)"
    and "rom_check_entry_validation s1 = (Inl e, s')" and "domain_error e"
  shows "rom_parse inn s = (Inl e, s')"
  unfolding rom_parse_def
  by (rule sub_step_error_propagates[where pre = "then_do (rom_input_inn inn) (\<lambda>_. rom_submit_search)"
        and step = rom_check_entry_validation, OF _ assms])
     (simp add: rom_steps_def then_do_assoc)

lemma npd_validation_error_propagates:
  assumes "then_do (npd_fill_inn_field inn) (\<lambda>_.
       then_do npd_fill_date_field (\<lambda>_. npd_submit_form)) s = (Inr u, s1)"
    and "npd_check_entry_validation s1 = (Inl e, s')" and "domain_error e"
  shows "npd_parse w inn s = (Inl e, s')"
  unfolding npd_parse_def
  by (rule sub_step_error_propagates[where pre = "then_do (npd_fill_inn_field inn) (\<lambda>_.
       then_do npd_fill_date_field (\<lambda>_. npd_submit_form))"
        and step = npd_check_entry_validation, OF _ assms])
     (simp add: npd_steps_def then_do_assoc)

lemma npd_analysis_error_propagates:
  assumes "then_do (npd_fill_inn_field inn) (\<lambda>_. then_do npd_fill_date_field (\<lambda>_.
       then_do npd_submit_form (\<lambda>_. then_do npd_check_entry_validation (\<lambda>_.
       npd_get_result_text)))) s = (Inr result_text, s1)"
    and "analyze_result w result_text = Inl e" and "domain_error e"
  shows "npd_parse w inn s = (Inl e, s1)"
proof -
  have "npd_steps w inn =
    then_do (then_do (npd_fill_inn_field inn) (\<lambda>_. then_do npd_fill_date_field (\<lambda>_.
       then_do npd_submit_form (\<lambda>_. then_do npd_check_entry_validation (\<lambda>_.
       npd_get_result_text)))))
      (\<lambda>result_text. (\<lambda>s. (analyze_result w result_text, s)))"
    by (simp add: npd_steps_def then_do_assoc)
  then have "npd_steps w inn s = (Inl e, s1)"
    using assms(1,2) by (simp add: then_do_Inr)
  then show ?thesis unfolding npd_parse_def using assms(3) by (rule parse_try_domain)
qed

lemma inn_validation_error_propagates:
  assumes "then_do inn_bypass_personal_data_block (\<lambda>_.
       then_do (inn_fill_personal_info surname name lastname birthdate passport) (\<lambda>_.
       inn_submit_form)) s = (Inr u, s1)"
    and "inn_validate_input s1 = (Inl e, s')" and "domain_error e"
  shows "inn_parse surname name lastname birthdate passport s = (Inl e, s')"
  unfolding inn_parse_def
  by (rule sub_step_error_propagates[where pre = "then_do inn_bypass_personal_data_block (\<lambda>_.
       then_do (inn_fill_personal_info surname name lastname birthdate passport) (\<lambda>_.
       inn_submit_form))" and step = inn_validate_input, OF _ assms])
     (simp add: inn_steps_def then_do_assoc)

lemma inn_result_error_propagates:
  assumes "then_do inn_bypass_personal_data_block (\<lambda>_.
       then_do (inn_fill_personal_info surname name lastname birthdate passport) (\<lambda>_.
       then_do inn_submit_form (\<lambda>_. inn_validate_input))) s = (Inr u, s1)"
    and "inn_parse_result s1 = (Inl e, s')" and "domain_error e"
  shows "inn_parse surname name lastname birthdate passport s = (Inl e, s')"
  unfolding inn_parse_def
  by (rule sub_step_error_propagates[where pre = "then_do inn_bypass_personal_data_block (\<lambda>_.
       then_do (inn_fill_personal_info surname name lastname birthdate passport) (\<lambda>_.
       then_do inn_submit_form (\<lambda>_. inn_validate_input)))" and step = inn_parse_result
        and rest = returns, OF _ assms])
     (simp add: inn_steps_def then_do_assoc then_do_returns)

text \<open>
  C10: a domain error raised by a sub-step of \<^verbatim>\<open>parse\<close>, when the sub-steps before it
  have completed, is the error \<^verbatim>\<open>parse\<close> raises, in the session the sub-step leaves:
  for the validation of \<^verbatim>\<open>RomParser\<close>, the validation and the text analysis of
  \<^verbatim>\<open>NpdParser\<close>, and \<^verbatim>\<open>_validate_input\<close> and \<^verbatim>\<open>_parse_result\<close> of
  \<^verbatim>\<open>InnParser\<close>. And for the four parsers, \<^verbatim>\<open>parse\<close> ends as its steps do unless
  they raised \<^verbatim>\<open>NoSuchElementException\<close> or \<^verbatim>\<open>TimeoutException\<close>.
\<close>

theorem domain_errors_propagate_unchanged:
  "(then_do (rom_input_inn inn) (\<lambda>_. rom_submit_search) s = (Inr u, s1)
      \<longrightarrow> rom_check_entry_validation s1 = (Inl e, s') \<longrightarrow> domain_error e
      \<longrightarrow> rom_parse inn s = (Inl e, s'))
   \<and> (then_do (npd_fill_inn_field inn) (\<lambda>_.
         then_do npd_fill_date_field (\<lambda>_. npd_submit_form)) s = (Inr u, s1)
      \<longrightarrow> npd_check_entry_validation s1 = (Inl e, s') \<longrightarrow> domain_error e
      \<longrightarrow> npd_parse w inn s = (Inl e, s'))
   \<and> (then_do (npd_fill_inn_field inn) (\<lambda>_. then_do npd_fill_date_field (\<lambda>_.
         then_do npd_submit_form (\<lambda>_. then_do npd_check_entry_validation (\<lambda>_.
         npd_get_result_text)))) s = (Inr result_text, s1)
      \<longrightarrow> analyze_result w result_text = Inl e \<longrightarrow> domain_error e
      \<longrightarrow> npd_parse w inn s = (Inl e, s1))
   \<and> (then_do inn_bypass_personal_data_block (\<lambda>_.
         then_do (inn_fill_personal_info surname name lastname birthdate passport) (\<lambda>_.
         inn_submit_form)) s = (Inr u, s1)
      \<longrightarrow> inn_validate_input s1 = (Inl e, s') \<longrightarrow> domain_error e
      \<longrightarrow> inn_parse surname name lastname birthdate passport s = (Inl e, s'))
   \<and> (then_do inn_bypass_personal_data_block (\<lambda>_.
         then_do (inn_fill_personal_info surname name lastname birthdate passport) (\<lambda>_.
         then_do inn_submit_form (\<lambda>_. inn_validate_input))) s = (Inr u, s1)
      \<longrightarrow> inn_parse_result s1 = (Inl e, s') \<longrightarrow> domain_error e
      \<longrightarrow> inn_parse surname name lastname birthdate passport s = (Inl e, s'))
   \<and> (inn_parse surname name lastname birthdate passport s
         = inn_steps surname name lastname birthdate passport s
       \<or> fst (inn_steps surname name lastname birthdate passport s) = Inl NoSuchElementException
       \<or> fst (inn_steps surname name lastname birthdate passport s) = Inl TimeoutException)
   \<and> (npd_parse w inn s = npd_steps w inn s
       \<or> fst (npd_steps w inn s) = Inl NoSuchElementException
       \<or> fst (npd_steps w inn s) = Inl TimeoutException)
   \<and> (rom_parse inn s = rom_steps inn s
       \<or> fst (rom_steps inn s) = Inl NoSuchElementException
       \<or> fst (rom_steps inn s) = Inl TimeoutException)
   \<and> (arbitr_parse inn s = arbitr_steps inn s
       \<or> fst (arbitr_steps inn s) = Inl NoSuchElementException
       \<or> fst (arbitr_steps inn s) = Inl TimeoutException)"
  apply (intro conjI impI)
          apply (erule (2) rom_validation_error_propagates)
         apply (erule (2) npd_validation_error_propagates)
        apply (erule (2) npd_analysis_error_propagates)
       apply (erule (2) inn_validation_error_propagates)
      apply (erule (2) inn_result_error_propagates)
     apply (unfold inn_parse_def npd_parse_def rom_parse_def arbitr_parse_def)
     apply (rule parse_try_cases)+
  done

theorem domain_errors_propagate_witness:
  "fst (rom_parse [55] (world [rom_query, rom_submit_button, field_errors] [])) = Inl FieldFormatError
   \<and> fst (npd_parse ascii_russian_word [55] (world [npd_tbINN, npd_tbDate, npd_btSend, npd_cv_Inn] []))
     = Inl FieldFormatError
   \<and> fst (npd_parse ascii_russian_word [55] (world [npd_result, npd_tbINN, npd_tbDate, npd_btSend] []))
     = Inl ServiceUnavailableError
   \<and> fst (inn_parse [1] [2] [3] [4] [5] (world [uniDialogData, fam, nam, otch, bdate, docno] []))
     = Inl ServiceCaptchaError
   \<and> fst (inn_parse [1] [2] [3] [4] [5] (world [result_3, fam, nam, otch, bdate, docno] []))
     = Inl DataVerificationError"
proof -
  have d: "domain_error FieldFormatError" "domain_error ServiceUnavailableError"
    "domain_error ServiceCaptchaError" "domain_error DataVerificationError"
    by (simp_all add: domain_error_def webdriver_exception_def)
  have split: "m x = (a, snd (m x))" if "fst (m x) = a" for m :: "session \<Rightarrow> 'r \<times> session" and x a
    using that by (metis prod.collapse)
  let ?wr = "world [rom_query, rom_submit_button, field_errors] []"
  let ?pr = "then_do (rom_input_inn [55]) (\<lambda>_. rom_submit_search)"
  have r1: "?pr ?wr = (Inr (), snd (?pr ?wr))" by (rule split) code_simp
  have r2: "rom_check_entry_validation (snd (?pr ?wr))
      = (Inl FieldFormatError, snd (rom_check_entry_validation (snd (?pr ?wr))))"
    by (rule split) code_simp
  let ?wn = "world [npd_tbINN, npd_tbDate, npd_btSend, npd_cv_Inn] []"
  let ?pn = "then_do (npd_fill_inn_field [55]) (\<lambda>_.
         then_do npd_fill_date_field (\<lambda>_. npd_submit_form))"
  have n1: "?pn ?wn = (Inr (), snd (?pn ?wn))" by (rule split) code_simp
  have n2: "npd_check_entry_validation (snd (?pn ?wn))
      = (Inl FieldFormatError, snd (npd_check_entry_validation (snd (?pn ?wn))))"
    by (rule split) code_simp
  let ?wa = "world [npd_result, npd_tbINN, npd_tbDate, npd_btSend] []"
  let ?pa = "then_do (npd_fill_inn_field [55]) (\<lambda>_. then_do npd_fill_date_field (\<lambda>_.
         then_do npd_submit_form (\<lambda>_. then_do npd_check_entry_validation (\<lambda>_.
         npd_get_result_text))))"
  have a1: "?pa ?wa = (Inr [], snd (?pa ?wa))" by (rule split) code_simp
  have a2: "analyze_result ascii_russian_word [] = Inl ServiceUnavailableError"
    by (simp add: analyze_result_def re_search_def match_at_def whole_word_at_def literal_at_def
        phrase_def phrase_not_def)
  let ?wc = "world [uniDialogData, fam, nam, otch, bdate, docno] []"
  let ?pc = "then_do inn_bypass_personal_data_block (\<lambda>_.
         then_do (inn_fill_personal_info [1] [2] [3] [4] [5]) (\<lambda>_. inn_submit_form))"
  have c1: "?pc ?wc = (Inr (), snd (?pc ?wc))" by (rule split) code_simp
  have c2: "inn_validate_input (snd (?pc ?wc))
      = (Inl ServiceCaptchaError, snd (inn_validate_input (snd (?pc ?wc))))"
    by (rule split) code_simp
  let ?wv = "world [result_3, fam, nam, otch, bdate, docno] []"
  let ?pv = "then_do inn_bypass_personal_data_block (\<lambda>_.
         then_do (inn_fill_personal_info [1] [2] [3] [4] [5]) (\<lambda>_.
         then_do inn_submit_form (\<lambda>_. inn_validate_input)))"
  have v1: "?pv ?wv = (Inr (), snd (?pv ?wv))" by (rule split) code_simp
  have v2: "inn_parse_result (snd (?pv ?wv))
      = (Inl DataVerificationError, snd (inn_parse_result (snd (?pv ?wv))))"
    by (rule split) code_simp
  note t = domain_errors_propagate_unchanged
  note kr = t[THEN conjunct1, THEN mp, THEN mp, THEN mp, OF r1 r2 d(1)]
  note kn = t[THEN conjunct2, THEN conjunct1, THEN mp, THEN mp, THEN mp, OF n1 n2 d(1)]
  note ka = t[THEN conjunct2, THEN conjunct2, THEN conjunct1, THEN mp, THEN mp, THEN mp,
      OF a1 a2 d(2)]
  note kc = t[THEN conjunct2, THEN conjunct2, THEN conjunct2, THEN conjunct1,
      THEN mp, THEN mp, THEN mp, OF c1 c2 d(3)]
  note kv = t[THEN conjunct2, THEN conjunct2, THEN conjunct2, THEN conjunct2, THEN conjunct1,
      THEN mp, THEN mp, THEN mp, OF v1 v2 d(4)]
  from kr kn ka kc kv show ?thesis by simp
qed

lemma visible_step_times_out:
  assumes "steps = then_do pre (\<lambda>_. then_do (wait_for_element_visibility loc None) rest)"
    and "pre s = (Inr u, s1)" and "none_visible_during s1 (timeout s1) [loc]"
  shows "parse_try steps s =
     (Inl ServiceUnavailableError, timed_out (visibility_of_element_located loc) (timeout s1) s1)"
proof -
  have "wait_for_element_visibility loc None s1 =
      (Inl TimeoutException, timed_out (visibility_of_element_located loc) (timeout s1) s1)"
    using wait_visible1_timeout[OF assms(3)]
    by (simp add: wait_for_element_visibility_def timeout_or_def)
  then have "steps s =
      (Inl TimeoutException, timed_out (visibility_of_element_located loc) (timeout s1) s1)"
    using assms(1,2) by (simp add: then_do_Inr then_do_Inl)
  then show ?thesis by (rule parse_try_Timeout)
qed

lemma clickable_step_times_out:
  assumes "steps = then_do pre (\<lambda>_. then_do (wait_for_element_clickable loc None) rest)"
    and "pre s = (Inr u, s1)" and "none_clickable_during s1 (timeout s1) [loc]"
  shows "parse_try steps s =
     (Inl ServiceUnavailableError, timed_out (element_to_be_clickable loc) (timeout s1) s1)"
proof -
  have "wait_for_element_clickable loc None s1 =
      (Inl TimeoutException, timed_out (element_to_be_clickable loc) (timeout s1) s1)"
    using wait_clickable1_timeout[OF assms(3)]
    by (simp add: wait_for_element_clickable_def timeout_or_def)
  then have "steps s =
      (Inl TimeoutException, timed_out (element_to_be_clickable loc) (timeout s1) s1)"
    using assms(1,2) by (simp add: then_do_Inr then_do_Inl)
  then show ?thesis by (rule parse_try_Timeout)
qed

lemma then_do_returns_left: "then_do (returns a) f = f a"
  by (simp add: then_do_def returns_def fun_eq_iff)

lemma returns_unit: "returns () s = (Inr (), s)"
  by (simp add: returns_def)

lemmas steps_unfolded =
  arbitr_steps_def arbitr_input_inn_def arbitr_submit_search_def
  rom_steps_def rom_input_inn_def rom_submit_search_def
  npd_steps_def npd_fill_inn_field_def npd_submit_form_def
  inn_steps_def inn_fill_personal_info_def inn_fill_field_def
  then_do_assoc then_do_returns_left

lemma wait_keeps_today:
  assumes "webdriver_wait_until t c s = (r, s')"
  shows "today s' = today s"
proof -
  from assms have "until c (clock s + t) (s\<lparr>history := history s @ [Waiting c t]\<rparr>) = (r, s')"
    by (simp add: webdriver_wait_until_def)
  from until_keeps[OF this] show ?thesis by (cases s') (cases s, simp)
qed

lemma npd_fill_date_field_eq:
  "npd_fill_date_field =
     then_do (wait_for_element_visibility npd_tbDate None) (\<lambda>date_field s.
       script_set_value date_field (today s) s)"
proof
  fix s
  obtain r s' where w: "wait_for_element_visibility npd_tbDate None s = (r, s')"
    by (cases "wait_for_element_visibility npd_tbDate None s")
  then have "today s' = today s"
    unfolding wait_for_element_visibility_def by (rule wait_keeps_today)
  with w show "npd_fill_date_field s =
     then_do (wait_for_element_visibility npd_tbDate None) (\<lambda>date_field s.
       script_set_value date_field (today s) s) s"
    by (cases r) (simp_all add: npd_fill_date_field_def then_do_def Let_def)
qed


lemma arbitr_inn_field_step_times_out:
  assumes "arbitr_close_notification s = (Inr u, s1)"
    and "none_visible_during s1 (timeout s1) [arbitr_inn_field]"
  shows "arbitr_parse inn s =
          (Inl ServiceUnavailableError,
           timed_out (visibility_of_element_located arbitr_inn_field) (timeout s1) s1)"
  unfolding arbitr_parse_def
  by (rule visible_step_times_out
        [where pre = "arbitr_close_notification",
         OF _ assms])
     (simp add: steps_unfolded)

lemma arbitr_submit_button_step_times_out:
  assumes "(then_do arbitr_close_notification (\<lambda>_.
           arbitr_input_inn inn)) s = (Inr u, s1)"
    and "none_clickable_during s1 (timeout s1) [arbitr_submit_button]"
  shows "arbitr_parse inn s =
          (Inl ServiceUnavailableError,
           timed_out (element_to_be_clickable arbitr_submit_button) (timeout s1) s1)"
  unfolding arbitr_parse_def
  by (rule clickable_step_times_out
        [where pre = "then_do arbitr_close_notification (\<lambda>_.
                      arbitr_input_inn inn)",
         OF _ assms])
     (simp add: steps_unfolded)

lemma rom_query_step_times_out:
  assumes "none_visible_during s (timeout s) [rom_query]"
  shows "rom_parse inn s =
          (Inl ServiceUnavailableError,
           timed_out (visibility_of_element_located rom_query) (timeout s) s)"
  unfolding rom_parse_def
  by (rule visible_step_times_out[where pre = "returns ()", OF _ returns_unit assms])
     (simp add: steps_unfolded)

lemma rom_submit_button_step_times_out:
  assumes "rom_input_inn inn s = (Inr u, s1)"
    and "none_clickable_during s1 (timeout s1) [rom_submit_button]"
  shows "rom_parse inn s =
          (Inl ServiceUnavailableError,
           timed_out (element_to_be_clickable rom_submit_button) (timeout s1) s1)"
  unfolding rom_parse_def
  by (rule clickable_step_times_out
        [where pre = "rom_input_inn inn",
         OF _ assms])
     (simp add: steps_unfolded)

lemma npd_tbINN_step_times_out:
  assumes "none_visible_during s (timeout s) [npd_tbINN]"
  shows "npd_parse w inn s =
          (Inl ServiceUnavailableError,
           timed_out (visibility_of_element_located npd_tbINN) (timeout s) s)"
  unfolding npd_parse_def
  by (rule visible_step_times_out[where pre = "returns ()", OF _ returns_unit assms])
     (simp add: steps_unfolded)

lemma npd_tbDate_step_times_out:
  assumes "npd_fill_inn_field inn s = (Inr u, s1)"
    and "none_visible_during s1 (timeout s1) [npd_tbDate]"
  shows "npd_parse w inn s =
          (Inl ServiceUnavailableError,
           timed_out (visibility_of_element_located npd_tbDate) (timeout s1) s1)"
  unfolding npd_parse_def
  by (rule visible_step_times_out
        [where pre = "npd_fill_inn_field inn",
         OF _ assms])
     (simp add: steps_unfolded npd_fill_date_field_eq)

lemma npd_btSend_step_times_out:
  assumes "(then_do (npd_fill_inn_field inn) (\<lambda>_.
           npd_fill_date_field)) s = (Inr u, s1)"
    and "none_clickable_during s1 (timeout s1) [npd_btSend]"
  shows "npd_parse w inn s =
          (Inl ServiceUnavailableError,
           timed_out (element_to_be_clickable npd_btSend) (timeout s1) s1)"
  unfolding npd_parse_def
  by (rule clickable_step_times_out
        [where pre = "then_do (npd_fill_inn_field inn) (\<lambda>_.
                      npd_fill_date_field)",
         OF _ assms])
     (simp add: steps_unfolded)

lemma fam_step_times_out:
  assumes "inn_bypass_personal_data_block s = (Inr u, s1)"
    and "none_visible_during s1 (timeout s1) [fam]"
  shows "inn_parse surname name lastname birthdate passport s =
          (Inl ServiceUnavailableError,
           timed_out (visibility_of_element_located fam) (timeout s1) s1)"
  unfolding inn_parse_def
  by (rule visible_step_times_out
        [where pre = "inn_bypass_personal_data_block",
         OF _ assms])
     (simp add: steps_unfolded)

lemma nam_step_times_out:
  assumes "(then_do inn_bypass_personal_data_block (\<lambda>_.
           inn_fill_field fam surname)) s = (Inr u, s1)"
    and "none_visible_during s1 (timeout s1) [nam]"
  shows "inn_parse surname name lastname birthdate passport s =
          (Inl ServiceUnavailableError,
           timed_out (visibility_of_element_located nam) (timeout s1) s1)"
  unfolding inn_parse_def
  by (rule visible_step_times_out
        [where pre = "then_do inn_bypass_personal_data_block (\<lambda>_.
                      inn_fill_field fam surname)",
         OF _ assms])
     (simp add: steps_unfolded)

lemma otch_step_times_out:
  assumes "(then_do inn_bypass_personal_data_block (\<lambda>_.
           then_do (inn_fill_field fam surname) (\<lambda>_.
           inn_fill_field nam name))) s = (Inr u, s1)"
    and "none_visible_during s1 (timeout s1) [otch]"
  shows "inn_parse surname name lastname birthdate passport s =
          (Inl ServiceUnavailableError,
           timed_out (visibility_of_element_located otch) (timeout s1) s1)"
  unfolding inn_parse_def
  by (rule visible_step_times_out
        [where pre = "then_do inn_bypass_personal_data_block (\<lambda>_.
                      then_do (inn_fill_field fam surname) (\<lambda>_.
                      inn_fill_field nam name))",
         OF _ assms])
     (simp add: steps_unfolded)

lemma bdate_step_times_out:
  assumes "(then_do inn_bypass_personal_data_block (\<lambda>_.
           then_do (inn_fill_field fam surname) (\<lambda>_.
           then_do (inn_fill_field nam name) (\<lambda>_.
           inn_fill_field otch lastname)))) s = (Inr u, s1)"
    and "none_visible_during s1 (timeout s1) [bdate]"
  shows "inn_parse surname name lastname birthdate passport s =
          (Inl ServiceUnavailableError,
           timed_out (visibility_of_element_located bdate) (timeout s1) s1)"
  unfolding inn_parse_def
  by (rule visible_step_times_out
        [where pre = "then_do inn_bypass_personal_data_block (\<lambda>_.
                      then_do (inn_fill_field fam surname) (\<lambda>_.
                      then_do (inn_fill_field nam name) (\<lambda>_.
                      inn_fill_field otch lastname)))",
         OF _ assms])
     (simp add: steps_unfolded)

lemma docno_step_times_out:
  assumes "(then_do inn_bypass_personal_data_block (\<lambda>_.
           then_do (inn_fill_field fam surname) (\<lambda>_.
           then_do (inn_fill_field nam name) (\<lambda>_.
           then_do (inn_fill_field otch lastname) (\<lambda>_.
           inn_fill_field bdate birthdate))))) s = (Inr u, s1)"
    and "none_visible_during s1 (timeout s1) [docno]"
  shows "inn_parse surname name lastname birthdate passport s =
          (Inl ServiceUnavailableError,
           timed_out (visibility_of_element_located docno) (timeout s1) s1)"
  unfolding inn_parse_def
  by (rule visible_step_times_out
        [where pre = "then_do inn_bypass_personal_data_block (\<lambda>_.
                      then_do (inn_fill_field fam surname) (\<lambda>_.
                      then_do (inn_fill_field nam name) (\<lambda>_.
                      then_do (inn_fill_field otch lastname) (\<lambda>_.
                      inn_fill_field bdate birthdate))))",
         OF _ assms])
     (simp add: steps_unfolded)

text \<open>
  C1, as stated, fails: in a world where no element ever appears, every parser's first
  required Step times out and \<^verbatim>\<open>parse\<close> raises \<^verbatim>\<open>ServiceUnavailableError\<close>, not
  \<^verbatim>\<open>UndefinedError\<close>.
\<close>

theorem required_step_timeout_not_Undefined:
  "fst (arbitr_parse [55] (world [] [])) = Inl ServiceUnavailableError
   \<and> fst (rom_parse [55] (world [] [])) = Inl ServiceUnavailableError
   \<and> fst (npd_parse ascii_russian_word [55] (world [] [])) = Inl ServiceUnavailableError
   \<and> fst (inn_parse [1] [2] [3] [4] [5] (world [] [])) = Inl ServiceUnavailableError"
  by code_simp

text \<open>
  C1, amended: for every parser and every required Step (a Step that waits for its element
  with \<^verbatim>\<open>wait_for_element_visibility\<close> or \<^verbatim>\<open>wait_for_element_clickable\<close>), when the
  statements before the Step have completed, leaving the session \<open>s1\<close>, and the element is
  not visible (for a click Step: not clickable) at any poll of the Step's wait, \<^verbatim>\<open>parse\<close>
  raises \<^verbatim>\<open>ServiceUnavailableError\<close>, and the Step's wait is the last command sent.
\<close>

theorem required_step_timeout_raises_ServiceUnavailable:
  "(arbitr_close_notification s = (Inr u, s1)
      \<longrightarrow> none_visible_during s1 (timeout s1) [arbitr_inn_field]
      \<longrightarrow> arbitr_parse inn s =
          (Inl ServiceUnavailableError,
           timed_out (visibility_of_element_located arbitr_inn_field) (timeout s1) s1))
   \<and> (then_do arbitr_close_notification (\<lambda>_.
       arbitr_input_inn inn) s = (Inr u, s1)
      \<longrightarrow> none_clickable_during s1 (timeout s1) [arbitr_submit_button]
      \<longrightarrow> arbitr_parse inn s =
          (Inl ServiceUnavailableError,
           timed_out (element_to_be_clickable arbitr_submit_button) (timeout s1) s1))
   \<and> (none_visible_during s (timeout s) [rom_query]
      \<longrightarrow> rom_parse inn s =
          (Inl ServiceUnavailableError,
           timed_out (visibility_of_element_located rom_query) (timeout s) s))
   \<and> (rom_input_inn inn s = (Inr u, s1)
      \<longrightarrow> none_clickable_during s1 (timeout s1) [rom_submit_button]
      \<longrightarrow> rom_parse inn s =
          (Inl ServiceUnavailableError,
           timed_out (element_to_be_clickable rom_submit_button) (timeout s1) s1))
   \<and> (none_visible_during s (timeout s) [npd_tbINN]
      \<longrightarrow> npd_parse w inn s =
          (Inl ServiceUnavailableError,
           timed_out (visibility_of_element_located npd_tbINN) (timeout s) s))
   \<and> (npd_fill_inn_field inn s = (Inr u, s1)
      \<longrightarrow> none_visible_during s1 (timeout s1) [npd_tbDate]
      \<longrightarrow> npd_parse w inn s =
          (Inl ServiceUnavailableError,
           timed_out (visibility_of_element_located npd_tbDate) (timeout s1) s1))
   \<and> (then_do (npd_fill_inn_field inn) (\<lambda>_.
       npd_fill_date_field) s = (Inr u, s1)
      \<longrightarrow> none_clickable_during s1 (timeout s1) [npd_btSend]
      \<longrightarrow> npd_parse w inn s =
          (Inl ServiceUnavailableError,
           timed_out (element_to_be_clickable npd_btSend) (timeout s1) s1))
   \<and> (inn_bypass_personal_data_block s = (Inr u, s1)
      \<longrightarrow> none_visible_during s1 (timeout s1) [fam]
      \<longrightarrow> inn_parse surname name lastname birthdate passport s =
          (Inl ServiceUnavailableError,
           timed_out (visibility_of_element_located fam) (timeout s1) s1))
   \<and> (then_do inn_bypass_personal_data_block (\<lambda>_.
       inn_fill_field fam surname) s = (Inr u, s1)
      \<longrightarrow> none_visible_during s1 (timeout s1) [nam]
      \<longrightarrow> inn_parse surname name lastname birthdate passport s =
          (Inl ServiceUnavailableError,
           timed_out (visibility_of_element_located nam) (timeout s1) s1))
   \<and> (then_do inn_bypass_personal_data_block (\<lambda>_.
       then_do (inn_fill_field fam surname) (\<lambda>_.
       inn_fill_field nam name)) s = (Inr u, s1)
      \<longrightarrow> none_visible_during s1 (timeout s1) [otch]
      \<longrightarrow> inn_parse surname name lastname birthdate passport s =
          (Inl ServiceUnavailableError,
           timed_out (visibility_of_element_located otch) (timeout s1) s1))
   \<and> (then_do inn_bypass_personal_data_block (\<lambda>_.
       then_do (inn_fill_field fam surname) (\<lambda>_.
       then_do (inn_fill_field nam name) (\<lambda>_.
       inn_fill_field otch lastname))) s = (Inr u, s1)
      \<longrightarrow> none_visible_during s1 (timeout s1) [bdate]
      \<longrightarrow> inn_parse surname name lastname birthdate passport s =
          (Inl ServiceUnavailableError,
           timed_out (visibility_of_element_located bdate) (timeout s1) s1))
   \<and> (then_do inn_bypass_personal_data_block (\<lambda>_.
       then_do (inn_fill_field fam surname) (\<lambda>_.
       then_do (inn_fill_field nam name) (\<lambda>_.
       then_do (inn_fill_field otch lastname) (\<lambda>_.
       inn_fill_field bdate birthdate)))) s = (Inr u, s1)
      \<longrightarrow> none_visible_during s1 (timeout s1) [docno]
      \<longrightarrow> inn_parse surname name lastname birthdate passport s =
          (Inl ServiceUnavailableError,
           timed_out (visibility_of_element_located docno) (timeout s1) s1))"
  apply (intro conjI impI)
  apply (erule (1) arbitr_inn_field_step_times_out)
  apply (erule (1) arbitr_submit_button_step_times_out)
  apply (erule rom_query_step_times_out)
  apply (erule (1) rom_submit_button_step_times_out)
  apply (erule npd_tbINN_step_times_out)
  apply (erule (1) npd_tbDate_step_times_out)
  apply (erule (1) npd_btSend_step_times_out)
  apply (erule (1) fam_step_times_out)
  apply (erule (1) nam_step_times_out)
  apply (erule (1) otch_step_times_out)
  apply (erule (1) bdate_step_times_out)
  apply (erule (1) docno_step_times_out)
  done

theorem required_step_timeout_witness:
  "fst (arbitr_parse [55] (world [] []))
       = Inl ServiceUnavailableError
   \<and> fst (arbitr_parse [55] (world [arbitr_inn_field] []))
       = Inl ServiceUnavailableError
   \<and> fst (rom_parse [55] (world [] []))
       = Inl ServiceUnavailableError
   \<and> fst (rom_parse [55] (world [rom_query] []))
       = Inl ServiceUnavailableError
   \<and> fst (npd_parse ascii_russian_word [55] (world [] []))
       = Inl ServiceUnavailableError
   \<and> fst (npd_parse ascii_russian_word [55] (world [npd_tbINN] []))
       = Inl ServiceUnavailableError
   \<and> fst (npd_parse ascii_russian_word [55] (world [npd_tbINN, npd_tbDate] []))
       = Inl ServiceUnavailableError
   \<and> fst (inn_parse [1] [2] [3] [4] [5] (world [] []))
       = Inl ServiceUnavailableError
   \<and> fst (inn_parse [1] [2] [3] [4] [5] (world [fam] []))
       = Inl ServiceUnavailableError
   \<and> fst (inn_parse [1] [2] [3] [4] [5] (world [fam, nam] []))
       = Inl ServiceUnavailableError
   \<and> fst (inn_parse [1] [2] [3] [4] [5] (world [fam, nam, otch] []))
       = Inl ServiceUnavailableError
   \<and> fst (inn_parse [1] [2] [3] [4] [5] (world [fam, nam, otch, bdate] []))
       = Inl ServiceUnavailableError"
proof -
  have a1: "fst (arbitr_parse [55] (world [] []))
      = Inl ServiceUnavailableError"
  proof -
    let ?w = "world [] []"
    let ?p = "arbitr_close_notification"
    have "fst (?p ?w) = Inr ()" by code_simp
    then have a: "?p ?w = (Inr (), snd (?p ?w))" by (metis prod.collapse)
    have b: "none_visible_during (snd (?p ?w)) (timeout (snd (?p ?w))) [arbitr_inn_field]"
      by code_simp
    from required_step_timeout_raises_ServiceUnavailable
      [where s = ?w and u = "()" and ?s1.0 = "snd (?p ?w)" and inn = "[55]" and w = ascii_russian_word
           and surname = "[1]" and name = "[2]" and lastname = "[3]" and birthdate = "[4]"
           and passport = "[5]"] a b
    show ?thesis by simp
  qed
  have a2: "fst (arbitr_parse [55] (world [arbitr_inn_field] []))
      = Inl ServiceUnavailableError"
  proof -
    let ?w = "world [arbitr_inn_field] []"
    let ?p = "then_do arbitr_close_notification (\<lambda>_.
             arbitr_input_inn [55])"
    have "fst (?p ?w) = Inr ()" by code_simp
    then have a: "?p ?w = (Inr (), snd (?p ?w))" by (metis prod.collapse)
    have b: "none_clickable_during (snd (?p ?w)) (timeout (snd (?p ?w))) [arbitr_submit_button]"
      by code_simp
    from required_step_timeout_raises_ServiceUnavailable
      [where s = ?w and u = "()" and ?s1.0 = "snd (?p ?w)" and inn = "[55]" and w = ascii_russian_word
           and surname = "[1]" and name = "[2]" and lastname = "[3]" and birthdate = "[4]"
           and passport = "[5]"] a b
    show ?thesis by simp
  qed
  have r0: "fst (rom_parse [55] (world [] []))
      = Inl ServiceUnavailableError"
  proof -
    let ?w = "world [] []"
    have b: "none_visible_during ?w (timeout ?w) [rom_query]" by code_simp
    from required_step_timeout_raises_ServiceUnavailable
      [where s = ?w and u = "()" and ?s1.0 = ?w and inn = "[55]" and w = ascii_russian_word
           and surname = "[1]" and name = "[2]" and lastname = "[3]" and birthdate = "[4]"
           and passport = "[5]"] b
    show ?thesis by simp
  qed
  have r1: "fst (rom_parse [55] (world [rom_query] []))
      = Inl ServiceUnavailableError"
  proof -
    let ?w = "world [rom_query] []"
    let ?p = "rom_input_inn [55]"
    have "fst (?p ?w) = Inr ()" by code_simp
    then have a: "?p ?w = (Inr (), snd (?p ?w))" by (metis prod.collapse)
    have b: "none_clickable_during (snd (?p ?w)) (timeout (snd (?p ?w))) [rom_submit_button]"
      by code_simp
    from required_step_timeout_raises_ServiceUnavailable
      [where s = ?w and u = "()" and ?s1.0 = "snd (?p ?w)" and inn = "[55]" and w = ascii_russian_word
           and surname = "[1]" and name = "[2]" and lastname = "[3]" and birthdate = "[4]"
           and passport = "[5]"] a b
    show ?thesis by simp
  qed
  have n0: "fst (npd_parse ascii_russian_word [55] (world [] []))
      = Inl ServiceUnavailableError"
  proof -
    let ?w = "world [] []"
    have b: "none_visible_during ?w (timeout ?w) [npd_tbINN]" by code_simp
    from required_step_timeout_raises_ServiceUnavailable
      [where s = ?w and u = "()" and ?s1.0 = ?w and inn = "[55]" and w = ascii_russian_word
           and surname = "[1]" and name = "[2]" and lastname = "[3]" and birthdate = "[4]"
           and passport = "[5]"] b
    show ?thesis by simp
  qed
  have n1: "fst (npd_parse ascii_russian_word [55] (world [npd_tbINN] []))
      = Inl ServiceUnavailableError"
  proof -
    let ?w = "world [npd_tbINN] []"
    let ?p = "npd_fill_inn_field [55]"
    have "fst (?p ?w) = Inr ()" by code_simp
    then have a: "?p ?w = (Inr (), snd (?p ?w))" by (metis prod.collapse)
    have b: "none_visible_during (snd (?p ?w)) (timeout (snd (?p ?w))) [npd_tbDate]"
      by code_simp
    from required_step_timeout_raises_ServiceUnavailable
      [where s = ?w and u = "()" and ?s1.0 = "snd (?p ?w)" and inn = "[55]" and w = ascii_russian_word
           and surname = "[1]" and name = "[2]" and lastname = "[3]" and birthdate = "[4]"
           and passport = "[5]"] a b
    show ?thesis by simp
  qed
  have n2: "fst (npd_parse ascii_russian_word [55] (world [npd_tbINN, npd_tbDate] []))
      = Inl ServiceUnavailableError"
  proof -
    let ?w = "world [npd_tbINN, npd_tbDate] []"
    let ?p = "then_do (npd_fill_inn_field [55]) (\<lambda>_.
             npd_fill_date_field)"
    have "fst (?p ?w) = Inr ()" by code_simp
    then have a: "?p ?w = (Inr (), snd (?p ?w))" by (metis prod.collapse)
    have b: "none_clickable_during (snd (?p ?w)) (timeout (snd (?p ?w))) [npd_btSend]"
      by code_simp
    from required_step_timeout_raises_ServiceUnavailable
      [where s = ?w and u = "()" and ?s1.0 = "snd (?p ?w)" and inn = "[55]" and w = ascii_russian_word
           and surname = "[1]" and name = "[2]" and lastname = "[3]" and birthdate = "[4]"
           and passport = "[5]"] a b
    show ?thesis by simp
  qed
  have i1: "fst (inn_parse [1] [2] [3] [4] [5] (world [] []))
      = Inl ServiceUnavailableError"
  proof -
    let ?w = "world [] []"
    let ?p = "inn_bypass_personal_data_block"
    have "fst (?p ?w) = Inr ()" by code_simp
    then have a: "?p ?w = (Inr (), snd (?p ?w))" by (metis prod.collapse)
    have b: "none_visible_during (snd (?p ?w)) (timeout (snd (?p ?w))) [fam]"
      by code_simp
    from required_step_timeout_raises_ServiceUnavailable
      [where s = ?w and u = "()" and ?s1.0 = "snd (?p ?w)" and inn = "[55]" and w = ascii_russian_word
           and surname = "[1]" and name = "[2]" and lastname = "[3]" and birthdate = "[4]"
           and passport = "[5]"] a b
    show ?thesis by simp
  qed
  have i2: "fst (inn_parse [1] [2] [3] [4] [5] (world [fam] []))
      = Inl ServiceUnavailableError"
  proof -
    let ?w = "world [fam] []"
    let ?p = "then_do inn_bypass_personal_data_block (\<lambda>_.
             inn_fill_field fam [1])"
    have "fst (?p ?w) = Inr ()" by code_simp
    then have a: "?p ?w = (Inr (), snd (?p ?w))" by (metis prod.collapse)
    have b: "none_visible_during (snd (?p ?w)) (timeout (snd (?p ?w))) [nam]"
      by code_simp
    from required_step_timeout_raises_ServiceUnavailable
      [where s = ?w and u = "()" and ?s1.0 = "snd (?p ?w)" and inn = "[55]" and w = ascii_russian_word
           and surname = "[1]" and name = "[2]" and lastname = "[3]" and birthdate = "[4]"
           and passport = "[5]"] a b
    show ?thesis by simp
  qed
  have i3: "fst (inn_parse [1] [2] [3] [4] [5] (world [fam, nam] []))
      = Inl ServiceUnavailableError"
  proof -
    let ?w = "world [fam, nam] []"
    let ?p = "then_do inn_bypass_personal_data_block (\<lambda>_.
             then_do (inn_fill_field fam [1]) (\<lambda>_.
             inn_fill_field nam [2]))"
    have "fst (?p ?w) = Inr ()" by code_simp
    then have a: "?p ?w = (Inr (), snd (?p ?w))" by (metis prod.collapse)
    have b: "none_visible_during (snd (?p ?w)) (timeout (snd (?p ?w))) [otch]"
      by code_simp
    from required_step_timeout_raises_ServiceUnavailable
      [where s = ?w and u = "()" and ?s1.0 = "snd (?p ?w)" and inn = "[55]" and w = ascii_russian_word
           and surname = "[1]" and name = "[2]" and lastname = "[3]" and birthdate = "[4]"
           and passport = "[5]"] a b
    show ?thesis by simp
  qed
  have i4: "fst (inn_parse [1] [2] [3] [4] [5] (world [fam, nam, otch] []))
      = Inl ServiceUnavailableError"
  proof -
    let ?w = "world [fam, nam, otch] []"
    let ?p = "then_do inn_bypass_personal_data_block (\<lambda>_.
             then_do (inn_fill_field fam [1]) (\<lambda>_.
             then_do (inn_fill_field nam [2]) (\<lambda>_.
             inn_fill_field otch [3])))"
    have "fst (?p ?w) = Inr ()" by code_simp
    then have a: "?p ?w = (Inr (), snd (?p ?w))" by (metis prod.collapse)
    have b: "none_visible_during (snd (?p ?w)) (timeout (snd (?p ?w))) [bdate]"
      by code_simp
    from required_step_timeout_raises_ServiceUnavailable
      [where s = ?w and u = "()" and ?s1.0 = "snd (?p ?w)" and inn = "[55]" and w = ascii_russian_word
           and surname = "[1]" and name = "[2]" and lastname = "[3]" and birthdate = "[4]"
           and passport = "[5]"] a b
    show ?thesis by simp
  qed
  have i5: "fst (inn_parse [1] [2] [3] [4] [5] (world [fam, nam, otch, bdate] []))
      = Inl ServiceUnavailableError"
  proof -
    let ?w = "world [fam, nam, otch, bdate] []"
    let ?p = "then_do inn_bypass_personal_data_block (\<lambda>_.
             then_do (inn_fill_field fam [1]) (\<lambda>_.
             then_do (inn_fill_field nam [2]) (\<lambda>_.
             then_do (inn_fill_field otch [3]) (\<lambda>_.
             inn_fill_field bdate [4]))))"
    have "fst (?p ?w) = Inr ()" by code_simp
    then have a: "?p ?w = (Inr (), snd (?p ?w))" by (metis prod.collapse)
    have b: "none_visible_during (snd (?p ?w)) (timeout (snd (?p ?w))) [docno]"
      by code_simp
    from required_step_timeout_raises_ServiceUnavailable
      [where s = ?w and u = "()" and ?s1.0 = "snd (?p ?w)" and inn = "[55]" and w = ascii_russian_word
           and surname = "[1]" and name = "[2]" and lastname = "[3]" and birthdate = "[4]"
           and passport = "[5]"] a b
    show ?thesis by simp
  qed
  from a1 a2 r0 r1 n0 n1 n2 i1 i2 i3 i4 i5 show ?thesis by simp
qed

lemma search_from_None:
  "(search_from w t ps = None) = (\<forall>i \<in> set ps. match_at w t i = None)"
  by (induction ps) (auto split: option.splits)

lemma search_from_first:
  "\<forall>j \<in> set xs. match_at w t j = None \<Longrightarrow> match_at w t i = Some m
   \<Longrightarrow> search_from w t (xs @ i # ys) = Some m"
  by (induction xs) auto

lemma positions_split: "i \<le> n \<Longrightarrow> [0..<Suc n] = [0..<i] @ i # [Suc i..<Suc n]"
proof -
  assume le: "i \<le> n"
  then have "[0..<Suc n] = [0..<i] @ [i..<Suc n]"
    using upt_add_eq_append[of 0 i "Suc n - i"] by simp
  moreover have "[i..<Suc n] = i # [Suc i..<Suc n]"
    by (rule upt_conv_Cons) (use le in simp)
  ultimately show ?thesis by simp
qed

lemma re_search_None:
  "(re_search w t = None) = (\<forall>i \<le> length t. match_at w t i = None)"
proof -
  have "set [0..<Suc (length t)] = {i. i \<le> length t}" by auto
  then show ?thesis unfolding re_search_def search_from_None by blast
qed

lemma re_search_first:
  assumes "i \<le> length t" and "\<forall>j < i. match_at w t j = None" and "match_at w t i = Some m"
  shows "re_search w t = Some m"
proof -
  have "\<forall>j \<in> set [0..<i]. match_at w t j = None" using assms(2) by simp
  from search_from_first[OF this assms(3)] show ?thesis
    unfolding re_search_def by (subst positions_split[OF assms(1)]) simp
qed

lemma match_at_None:
  "(match_at w t i = None) = (\<not> whole_word_at w phrase_not t i \<and> \<not> whole_word_at w phrase t i)"
  by (simp add: match_at_def)

lemma phrases_exclude: "literal_at t i phrase \<Longrightarrow> \<not> literal_at t i phrase_not"
  by (cases "drop i t") (auto simp: literal_at_def phrase_def phrase_not_def)

lemma phrase_not_differs: "phrase_not \<noteq> phrase"
  by (simp add: phrase_not_def phrase_def)

lemmas regex_defs = analyze_result_def re_search_def match_at_def whole_word_at_def word_boundary_def
  literal_at_def ascii_russian_word_def phrase_def phrase_not_def

text \<open>
  C2, as stated, fails: on a text that matches neither phrase \<^verbatim>\<open>_analyze_result\<close> raises
  \<^verbatim>\<open>ServiceUnavailableError\<close>, as its docstring says, not \<^verbatim>\<open>UndefinedError\<close>; and a
  text that contains the negated phrase after an earlier bare one gives \<^verbatim>\<open>True\<close>.
\<close>

theorem unmatched_text_raises_ServiceUnavailable:
  "analyze_result ascii_russian_word text_unknown = Inl ServiceUnavailableError
   \<and> analyze_result ascii_russian_word [] = Inl ServiceUnavailableError
   \<and> analyze_result ascii_russian_word text_both = Inr True"
  by (simp add: regex_defs text_unknown_def text_both_def)

text \<open>
  C2, amended: \<^verbatim>\<open>_analyze_result\<close> raises \<^verbatim>\<open>ServiceUnavailableError\<close> when neither
  phrase occurs in the text as a whole word; it returns \<^verbatim>\<open>False\<close> when the leftmost
  whole-word occurrence of a phrase is the negated one, and \<^verbatim>\<open>True\<close> when it is the bare
  one.
\<close>

theorem analyze_result_leftmost_whole_word:
  "((\<forall>i \<le> length t. \<not> whole_word_at w phrase_not t i \<and> \<not> whole_word_at w phrase t i)
      \<longrightarrow> analyze_result w t = Inl ServiceUnavailableError)
   \<and> (i \<le> length t
      \<longrightarrow> (\<forall>j < i. \<not> whole_word_at w phrase_not t j \<and> \<not> whole_word_at w phrase t j)
      \<longrightarrow> whole_word_at w phrase_not t i
      \<longrightarrow> analyze_result w t = Inr False)
   \<and> (i \<le> length t
      \<longrightarrow> (\<forall>j < i. \<not> whole_word_at w phrase_not t j \<and> \<not> whole_word_at w phrase t j)
      \<longrightarrow> whole_word_at w phrase t i
      \<longrightarrow> analyze_result w t = Inr True)"
proof (intro conjI impI)
  assume "\<forall>i \<le> length t. \<not> whole_word_at w phrase_not t i \<and> \<not> whole_word_at w phrase t i"
  then have "re_search w t = None" by (simp add: re_search_None match_at_None)
  then show "analyze_result w t = Inl ServiceUnavailableError" by (simp add: analyze_result_def)
next
  assume i: "i \<le> length t"
    and before: "\<forall>j < i. \<not> whole_word_at w phrase_not t j \<and> \<not> whole_word_at w phrase t j"
    and here: "whole_word_at w phrase_not t i"
  from here have "match_at w t i = Some phrase_not" by (simp add: match_at_def)
  moreover from before have "\<forall>j < i. match_at w t j = None" by (simp add: match_at_None)
  ultimately have "re_search w t = Some phrase_not" using i by (simp add: re_search_first)
  then show "analyze_result w t = Inr False" by (simp add: analyze_result_def phrase_not_differs)
next
  assume i: "i \<le> length t"
    and before: "\<forall>j < i. \<not> whole_word_at w phrase_not t j \<and> \<not> whole_word_at w phrase t j"
    and here: "whole_word_at w phrase t i"
  from here have "\<not> whole_word_at w phrase_not t i"
    using phrases_exclude[of t i] by (simp add: whole_word_at_def)
  with here have "match_at w t i = Some phrase" by (simp add: match_at_def)
  moreover from before have "\<forall>j < i. match_at w t j = None" by (simp add: match_at_None)
  ultimately have "re_search w t = Some phrase" using i by (simp add: re_search_first)
  then show "analyze_result w t = Inr True" by (simp add: analyze_result_def)
qed


lemma all_le_Suc: "(\<forall>i \<le> Suc n. P i) = ((\<forall>i \<le> n. P i) \<and> P (Suc n))"
  by (auto simp: le_Suc_eq)

lemma all_less_Suc: "(\<forall>i < Suc n. P i) = ((\<forall>i < n. P i) \<and> P n)"
  by (auto simp: less_Suc_eq)

theorem analyze_result_witness:
  "analyze_result ascii_russian_word text_unknown = Inl ServiceUnavailableError
   \<and> analyze_result ascii_russian_word text_is_not = Inr False
   \<and> analyze_result ascii_russian_word text_is = Inr True"
proof -
  let ?w = ascii_russian_word
  have a: "\<forall>i \<le> length text_unknown. \<not> whole_word_at ?w phrase_not text_unknown i
      \<and> \<not> whole_word_at ?w phrase text_unknown i"
    by (simp add: text_unknown_def all_le_Suc whole_word_at_def literal_at_def phrase_def
        phrase_not_def)
  have b: "Suc (Suc (Suc 0)) \<le> length text_is_not"
    "\<forall>j < Suc (Suc (Suc 0)). \<not> whole_word_at ?w phrase_not text_is_not j
       \<and> \<not> whole_word_at ?w phrase text_is_not j"
    "whole_word_at ?w phrase_not text_is_not (Suc (Suc (Suc 0)))"
    by (simp_all add: text_is_not_def all_less_Suc whole_word_at_def literal_at_def
        word_boundary_def ascii_russian_word_def phrase_def phrase_not_def)
  have c: "Suc (Suc (Suc 0)) \<le> length text_is"
    "\<forall>j < Suc (Suc (Suc 0)). \<not> whole_word_at ?w phrase_not text_is j
       \<and> \<not> whole_word_at ?w phrase text_is j"
    "whole_word_at ?w phrase text_is (Suc (Suc (Suc 0)))"
    by (simp_all add: text_is_def all_less_Suc whole_word_at_def literal_at_def
        word_boundary_def ascii_russian_word_def phrase_def phrase_not_def)
  note r1 = analyze_result_leftmost_whole_word[where w = ?w and t = text_unknown,
      THEN conjunct1, THEN mp, OF a]
  note r2 = analyze_result_leftmost_whole_word[where w = ?w and t = text_is_not
        and i = "Suc (Suc (Suc 0))",
      THEN conjunct2, THEN conjunct1, THEN mp, THEN mp, THEN mp, OF b]
  note r3 = analyze_result_leftmost_whole_word[where w = ?w and t = text_is
        and i = "Suc (Suc (Suc 0))",
      THEN conjunct2, THEN conjunct2, THEN mp, THEN mp, THEN mp, OF c]
  from r1 r2 r3 show ?thesis by simp
qed

end
